theory Spec2Isabelle
  imports Main "HOL-Library.AList" "HOL-Library.Word"
begin

unbundle bit_operations_syntax

section \<open>Value trees and errors\<close>

text \<open>
  Values crossing component boundaries are plain trees (Go's \<open>any\<close> after decoding):
  \<open>JNull\<close> is the nil interface, \<open>JArr\<close> a \<open>[]any\<close>, \<open>JObj\<close> a \<open>map[string]any\<close>.
  A Go map is an association list whose keys are distinct; \<open>range\<close> over a map is
  modelled as a traversal in list order (Go leaves the order open, and no result below
  depends on it beyond the position of entries in the list). Numeric leaves are
  represented by integers. A nil map is identified with the empty map: the code below
  only ever reads nil maps, and reading a nil map behaves like reading an empty one.
  Trees produced by the decoders never hold a typed nil map or slice inside an
  interface, so these are not represented.
\<close>

datatype jv =
    JNull
  | JBool bool
  | JInt int
  | JStr string
  | JArr "jv list"
  | JObj "(string \<times> jv) list"

type_synonym jmap = "(string \<times> jv) list"

text \<open>Go errors: a message, possibly wrapping a cause (\<open>fmt.Errorf("...: %w", err)\<close>).\<close>

datatype error = Error string | Wrap string error

section \<open>Context builder\<close>

subsection \<open>Deep copy and deep merge\<close>

text \<open>\<open>deepCopyValue\<close>: maps and slices are rebuilt element by element, other values returned.\<close>

fun deepCopyValue :: "jv \<Rightarrow> jv" where
  "deepCopyValue (JObj val) = JObj (map (\<lambda>(k, v). (k, deepCopyValue v)) val)"
| "deepCopyValue (JArr val) = JArr (map deepCopyValue val)"
| "deepCopyValue v = v"

text \<open>
  The second loop of \<open>deepMerge\<close>: for every entry \<open>(k, v)\<close> of the override, if
  \<open>result\<close> already has \<open>k\<close> and both values are maps the entry becomes their recursive
  merge (the recursive call starts, like every call, by copying its base), otherwise it
  becomes a copy of \<open>v\<close>.
\<close>

function (sequential) deepMergeLoop :: "jmap \<Rightarrow> jmap \<Rightarrow> jmap" where
  "deepMergeLoop result [] = result"
| "deepMergeLoop result ((k, v) # rest) =
     deepMergeLoop
       (case (map_of result k, v) of
          (Some (JObj existingMap), JObj overrideMap) \<Rightarrow>
             AList.update k
               (JObj (deepMergeLoop (map (\<lambda>(k, v). (k, deepCopyValue v)) existingMap) overrideMap))
               result
        | _ \<Rightarrow> AList.update k (deepCopyValue v) result)
       rest"
  by pat_completeness auto
termination
  by (relation "measure (\<lambda>(b, ov). size_list (size_prod (\<lambda>_. 0) size) ov)") auto

text \<open>
  \<open>deepMerge\<close>: copy all base values, then merge the override values. (For a nil
  override the source returns the base itself, which is the same value as its copy.)
\<close>

definition deepMerge :: "jmap \<Rightarrow> jmap \<Rightarrow> jmap" where
  "deepMerge base override =
     deepMergeLoop (map (\<lambda>(k, v). (k, deepCopyValue v)) base) override"

subsection \<open>Structural schema and defaulting\<close>

text \<open>
  Modelled from the spec: the structural schema and \<open>schema.ApplyDefaults\<close> live in the
  repository's \<open>schema\<close> package, whose source is not available. A schema node has an
  optional default, declared properties (for objects) and an optional item schema (for
  arrays). Defaulting produces a mapping in which every declared field that is absent and
  has a default is present with a deep copy of that default, recursively across nested
  objects, and for arrays the item schema is applied to each element.
\<close>

datatype schema =
  Schema (sdefault: "jv option") (sproperties: "(string \<times> schema) list") (sitems: "schema option")

fun fillDefaults :: "(string \<times> schema) list \<Rightarrow> jmap \<Rightarrow> jmap" where
  "fillDefaults [] m = m"
| "fillDefaults ((k, ps) # rest) m =
     fillDefaults rest
       (case (map_of m k, sdefault ps) of
          (None, Some d) \<Rightarrow> AList.update k (deepCopyValue d) m
        | _ \<Rightarrow> m)"

function (sequential) ApplyDefaults :: "jv \<Rightarrow> schema \<Rightarrow> jv" where
  "ApplyDefaults (JObj m) (Schema d props items) =
     JObj (map (\<lambda>(k, v). (k, case map_of props k of
                                 Some ps \<Rightarrow> ApplyDefaults v ps
                               | None \<Rightarrow> v))
            (fillDefaults props m))"
| "ApplyDefaults (JArr xs) (Schema d props (Some it)) = JArr (map (\<lambda>x. ApplyDefaults x it) xs)"
| "ApplyDefaults v s = v"
  by pat_completeness auto
termination
proof (relation "measure (\<lambda>(v, s). size s)", goal_cases)
  case 1
  show ?case by simp
next
  case (2 m d props items x k v ps)
  from \<open>map_of props k = Some ps\<close> have "(k, ps) \<in> set props"
    by (rule map_of_SomeD)
  then have "size ps < Suc (size_list (size_prod (\<lambda>_. 0) size) props)"
    by (induction props) auto
  then show ?case by simp
next
  case 3
  then show ?case by simp
qed

subsection \<open>Inputs\<close>

text \<open>
  A \<open>runtime.RawExtension\<close> holds raw JSON bytes. \<open>RawEmpty\<close> is an extension whose
  \<open>Raw\<close> field is nil; \<open>RawJSON r\<close> carries the outcome \<open>r\<close> of \<open>json.Unmarshal\<close> of the
  bytes into a \<open>map[string]any\<close> (library code, taken as given). A nil pointer to an
  extension is \<open>None\<close>.
\<close>

datatype RawExtension = RawEmpty | RawJSON "error + jmap"

record Component =
  Name :: string
  Namespace :: string
  Parameters :: "RawExtension option"

record ComponentTypeDefinition =
  SchemaParameters :: "RawExtension option"
  SchemaEnvOverrides :: "RawExtension option"

record EnvSettings =
  Overrides :: "RawExtension option"
  AddonOverrides :: "(string \<times> (string \<times> RawExtension) list) list option"

record Container =
  Image :: string
  Command :: "string list"
  Args :: "string list"

text \<open>
  The element types of a workload's endpoints and connections are declared outside the
  available source; they are carried as opaque value trees keyed by name.
\<close>

record Workload =
  WorkloadName :: string
  Containers :: "(string \<times> Container) list"
  Endpoints :: jmap
  Connections :: jmap

record ComponentContextInput =
  Component :: "Component option"
  ComponentTypeDefinition :: "ComponentTypeDefinition option"
  EnvSettings :: "EnvSettings option"
  Workload :: "Workload option"
  Environment :: string
  AdditionalMetadata :: "(string \<times> string) list"

record Addon =
  AddonName :: string
  AddonSchemaParameters :: "RawExtension option"
  AddonSchemaEnvOverrides :: "RawExtension option"

record ComponentAddon =
  InstanceID :: string
  Config :: "RawExtension option"

record AddonContextInput =
  AddonDef :: "Addon option"
  Instance :: ComponentAddon
  AddonComponent :: "Component option"
  AddonEnvSettings :: "EnvSettings option"
  AddonEnvironment :: string
  AddonAdditionalMetadata :: "(string \<times> string) list"

record SchemaInput =
  ParametersSchema :: "RawExtension option"
  EnvOverridesSchema :: "RawExtension option"
  Structural :: "schema option"

text \<open>The rendering context: a \<open>map[string]any\<close> that is only read and written by key.\<close>

type_synonym ctx = "string \<rightharpoonup> jv"

subsection \<open>Builders\<close>

definition extractParameters :: "RawExtension option \<Rightarrow> error + jmap" where
  "extractParameters raw =
     (case raw of
        None \<Rightarrow> Inr []
      | Some RawEmpty \<Rightarrow> Inr []
      | Some (RawJSON r) \<Rightarrow>
          (case r of
             Inl err \<Rightarrow> Inl (Wrap ''failed to unmarshal parameters'' err)
           | Inr params \<Rightarrow> Inr params))"

definition extractParametersFromRawExtension :: "RawExtension option \<Rightarrow> error + jmap" where
  "extractParametersFromRawExtension raw =
     (case raw of
        None \<Rightarrow> Inr []
      | Some RawEmpty \<Rightarrow> Inr []
      | Some (RawJSON r) \<Rightarrow>
          (case r of
             Inl err \<Rightarrow> Inl (Wrap ''failed to unmarshal parameters'' err)
           | Inr params \<Rightarrow> Inr params))"

definition containerData :: "Container \<Rightarrow> jv" where
  "containerData container =
     (let d0 = [(''image'', JStr (Image container))];
          d1 = (if length (Command container) > 0
                then AList.update ''command'' (JArr (map JStr (Command container))) d0 else d0);
          d2 = (if length (Args container) > 0
                then AList.update ''args'' (JArr (map JStr (Args container))) d1 else d1)
      in JObj d2)"

definition extractWorkloadData :: "Workload option \<Rightarrow> jmap" where
  "extractWorkloadData workload =
     (case workload of
        None \<Rightarrow> []
      | Some w \<Rightarrow>
          (let d0 = [];
               d1 = (if WorkloadName w \<noteq> '''' then AList.update ''name'' (JStr (WorkloadName w)) d0 else d0);
               d2 = (if length (Containers w) > 0
                     then AList.update ''containers''
                            (JObj (map (\<lambda>(name, container). (name, containerData container)) (Containers w))) d1
                     else d1);
               d3 = (if length (Endpoints w) > 0
                     then AList.update ''endpoints'' (JObj (Endpoints w)) d2 else d2);
               d4 = (if length (Connections w) > 0
                     then AList.update ''connections'' (JObj (Connections w)) d3 else d3)
           in d4))"

text \<open>
  \<open>buildStructuralSchema\<close>: a cached structural schema is returned as it is; otherwise
  the declared schemas are decoded and handed to \<open>schema.ToStructural\<close>, which is not
  part of the available source and is the parameter \<open>toStructural\<close>.
\<close>

definition buildStructuralSchema ::
  "(jmap list \<Rightarrow> error + schema) \<Rightarrow> SchemaInput \<Rightarrow> error + schema" where
  "buildStructuralSchema toStructural input =
     (case Structural input of
        Some s \<Rightarrow> Inr s
      | None \<Rightarrow>
         (case (case ParametersSchema input of
                  None \<Rightarrow> Inr []
                | Some r \<Rightarrow>
                    (case extractParameters (Some r) of
                       Inl err \<Rightarrow> Inl (Wrap ''failed to extract parameters schema'' err)
                     | Inr params \<Rightarrow> Inr [params])) of
            Inl err \<Rightarrow> Inl err
          | Inr schemas1 \<Rightarrow>
             (case (case EnvOverridesSchema input of
                      None \<Rightarrow> Inr schemas1
                    | Some r \<Rightarrow>
                        (case extractParameters (Some r) of
                           Inl err \<Rightarrow> Inl (Wrap ''failed to extract envOverrides schema'' err)
                         | Inr envOverrides \<Rightarrow> Inr (schemas1 @ [envOverrides]))) of
                Inl err \<Rightarrow> Inl err
              | Inr schemas \<Rightarrow>
                 (case toStructural schemas of
                    Inl err \<Rightarrow> Inl (Wrap ''failed to create structural schema'' err)
                  | Inr structural \<Rightarrow> Inr structural))))"

definition componentMeta :: "Component \<Rightarrow> jv" where
  "componentMeta c =
     JObj (let m = [(''name'', JStr (Name c))]
           in if Namespace c \<noteq> '''' then AList.update ''namespace'' (JStr (Namespace c)) m else m)"

text \<open>Steps 5 to 8 of \<open>BuildComponentContext\<close>, after \<open>ctx["parameters"]\<close> is set.\<close>

definition componentContextTail :: "ComponentContextInput \<Rightarrow> Component \<Rightarrow> ctx \<Rightarrow> ctx" where
  "componentContextTail input component ctx0 =
     (let ctx1 = (case Workload input of
                    Some w \<Rightarrow> ctx0(''workload'' \<mapsto> JObj (extractWorkloadData (Some w)))
                  | None \<Rightarrow> ctx0);
          ctx2 = ctx1(''component'' \<mapsto> componentMeta component);
          ctx3 = (if Environment input \<noteq> ''''
                  then ctx2(''environment'' \<mapsto> JStr (Environment input)) else ctx2);
          ctx4 = (if length (AdditionalMetadata input) > 0
                  then ctx3(''metadata'' \<mapsto> JObj (map (\<lambda>(k, v). (k, JStr v)) (AdditionalMetadata input)))
                  else ctx3)
      in ctx4)"

definition BuildComponentContext ::
  "(jmap list \<Rightarrow> error + schema) \<Rightarrow> ComponentContextInput option \<Rightarrow> error + ctx" where
  "BuildComponentContext toStructural input =
     (case input of
        None \<Rightarrow> Inl (Error ''component context input is nil'')
      | Some inp \<Rightarrow>
     (case Component inp of
        None \<Rightarrow> Inl (Error ''component is nil'')
      | Some component \<Rightarrow>
     (case ComponentTypeDefinition inp of
        None \<Rightarrow> Inl (Error ''component type definition is nil'')
      | Some ctd \<Rightarrow>
     (case buildStructuralSchema toStructural
             \<lparr>ParametersSchema = SchemaParameters ctd,
              EnvOverridesSchema = SchemaEnvOverrides ctd,
              Structural = None\<rparr> of
        Inl err \<Rightarrow> Inl (Wrap ''failed to build component schema'' err)
      | Inr structural \<Rightarrow>
     (case extractParameters (Parameters component) of
        Inl err \<Rightarrow> Inl (Wrap ''failed to extract component parameters'' err)
      | Inr parameters \<Rightarrow>
     (case (case EnvSettings inp of
              None \<Rightarrow> Inr parameters
            | Some es \<Rightarrow>
                (case Overrides es of
                   None \<Rightarrow> Inr parameters
                 | Some ov \<Rightarrow>
                     (case extractParameters (Some ov) of
                        Inl err \<Rightarrow> Inl (Wrap ''failed to extract environment overrides'' err)
                      | Inr envOverrides \<Rightarrow> Inr (deepMerge parameters envOverrides)))) of
        Inl err \<Rightarrow> Inl err
      | Inr merged \<Rightarrow>
          Inr (componentContextTail inp component
                 (Map.empty(''parameters'' \<mapsto> ApplyDefaults (JObj merged) structural)))))))))"

definition BuildAddonContext ::
  "(jmap list \<Rightarrow> error + schema) \<Rightarrow> AddonContextInput option \<Rightarrow> error + ctx" where
  "BuildAddonContext toStructural input =
     (case input of
        None \<Rightarrow> Inl (Error ''addon context input is nil'')
      | Some inp \<Rightarrow>
     (case AddonDef inp of
        None \<Rightarrow> Inl (Error ''addon is nil'')
      | Some addon \<Rightarrow>
     (case AddonComponent inp of
        None \<Rightarrow> Inl (Error ''component is nil'')
      | Some component \<Rightarrow>
     (case buildStructuralSchema toStructural
             \<lparr>ParametersSchema = AddonSchemaParameters addon,
              EnvOverridesSchema = AddonSchemaEnvOverrides addon,
              Structural = None\<rparr> of
        Inl err \<Rightarrow> Inl (Wrap ''failed to build addon schema'' err)
      | Inr structural \<Rightarrow>
     (case extractParameters (Config (Instance inp)) of
        Inl err \<Rightarrow> Inl (Wrap ''failed to extract addon instance parameters'' err)
      | Inr parameters \<Rightarrow>
     (case (case AddonEnvSettings inp of
              None \<Rightarrow> Inr parameters
            | Some es \<Rightarrow>
                (case AddonOverrides es of
                   None \<Rightarrow> Inr parameters
                 | Some allOverrides \<Rightarrow>
                     (case map_of allOverrides (AddonName addon) of
                        None \<Rightarrow> Inr parameters
                      | Some addonOverrides \<Rightarrow>
                          (case map_of addonOverrides (InstanceID (Instance inp)) of
                             None \<Rightarrow> Inr parameters
                           | Some instanceOverride \<Rightarrow>
                               (case extractParametersFromRawExtension (Some instanceOverride) of
                                  Inl err \<Rightarrow> Inl (Wrap ''failed to extract addon environment overrides'' err)
                                | Inr envOverrides \<Rightarrow> Inr (deepMerge parameters envOverrides)))))) of
        Inl err \<Rightarrow> Inl err
      | Inr merged \<Rightarrow>
          Inr (let ctx1 = Map.empty(''parameters'' \<mapsto> ApplyDefaults (JObj merged) structural);
                   ctx2 = ctx1(''addon'' \<mapsto> JObj [(''name'', JStr (AddonName addon)),
                                                   (''instanceId'', JStr (InstanceID (Instance inp)))]);
                   ctx3 = ctx2(''component'' \<mapsto> componentMeta component);
                   ctx4 = (if AddonEnvironment inp \<noteq> ''''
                           then ctx3(''environment'' \<mapsto> JStr (AddonEnvironment inp)) else ctx3);
                   ctx5 = (if length (AddonAdditionalMetadata inp) > 0
                           then ctx4(''metadata'' \<mapsto>
                                  JObj (map (\<lambda>(k, v). (k, JStr v)) (AddonAdditionalMetadata inp)))
                           else ctx4)
               in ctx5)))))))"

section \<open>Template functions: hashing\<close>

text \<open>
  \<open>oc_hash\<close> and \<open>generateHashString\<close> feed the bytes of the input to Go's
  \<open>hash/fnv\<close> 32-bit FNV-1a hasher and print the sum with \<open>%08x\<close>. The hasher is
  library code; it is written out here as the FNV-1a algorithm on 32-bit words: start
  from the offset basis, and for every byte xor it in and multiply by the FNV prime.
\<close>

definition offset32 :: "32 word" where
  "offset32 = 2166136261"

definition prime32 :: "32 word" where
  "prime32 = 16777619"

fun fnv32a_write :: "32 word \<Rightarrow> string \<Rightarrow> 32 word" where
  "fnv32a_write h [] = h"
| "fnv32a_write h (c # cs) = fnv32a_write ((h XOR of_char c) * prime32) cs"

definition fnv32a_sum32 :: "string \<Rightarrow> 32 word" where
  "fnv32a_sum32 input = fnv32a_write offset32 input"

text \<open>\<open>%x\<close>: the lower-case hexadecimal digits of a number, most significant first.\<close>

definition hexdigit :: "nat \<Rightarrow> char" where
  "hexdigit d = ''0123456789abcdef'' ! d"

fun hexdigits :: "nat \<Rightarrow> string" where
  "hexdigits n = (if n < 16 then [hexdigit n] else hexdigits (n div 16) @ [hexdigit (n mod 16)])"

declare hexdigits.simps [simp del]

text \<open>\<open>%08x\<close>: padded with zeros on the left to a width of at least eight.\<close>

definition sprintf_08x :: "32 word \<Rightarrow> string" where
  "sprintf_08x h =
     (let s = hexdigits (unat h) in replicate (8 - length s) (CHR ''0'') @ s)"

definition oc_hash :: "string \<Rightarrow> string" where
  "oc_hash input = sprintf_08x (fnv32a_sum32 input)"

definition generateHashString :: "string \<Rightarrow> string" where
  "generateHashString input = sprintf_08x (fnv32a_sum32 input)"

text \<open>Reading a string of hexadecimal digits back as a number (used to state results).\<close>

definition hexval :: "char \<Rightarrow> nat" where
  "hexval c = (let n = (of_char c :: nat) in if 48 \<le> n \<and> n \<le> 57 then n - 48 else n - 87)"

definition hex_to_nat :: "string \<Rightarrow> nat" where
  "hex_to_nat s = foldl (\<lambda>acc c. 16 * acc + hexval c) 0 s"

section \<open>Patch engine\<close>

subsection \<open>String helpers from the Go library\<close>

text \<open>\<open>strings.Split\<close> with a one-character separator.\<close>

fun splitOn :: "char \<Rightarrow> string \<Rightarrow> string list" where
  "splitOn sep [] = [[]]"
| "splitOn sep (c # cs) =
     (if c = sep then [] # splitOn sep cs
      else (case splitOn sep cs of
              w # ws \<Rightarrow> (c # w) # ws
            | [] \<Rightarrow> [[c]]))"

definition TrimPrefix :: "string \<Rightarrow> string \<Rightarrow> string" where
  "TrimPrefix s p = (if take (length p) s = p then drop (length p) s else s)"

definition isDigit :: "char \<Rightarrow> bool" where
  "isDigit c = (48 \<le> (of_char c :: nat) \<and> (of_char c :: nat) \<le> 57)"

definition digitsValue :: "string \<Rightarrow> nat" where
  "digitsValue ds = foldl (\<lambda>acc c. 10 * acc + ((of_char c :: nat) - 48)) 0 ds"

text \<open>
  \<open>strconv.Atoi\<close>: an optional sign followed by one or more decimal digits, within the
  range of a 64-bit \<open>int\<close>; \<open>None\<close> stands for a returned error.
\<close>

definition Atoi :: "string \<Rightarrow> int option" where
  "Atoi s =
     (let neg = (s \<noteq> [] \<and> hd s = CHR ''-'');
          ds = (if s \<noteq> [] \<and> (hd s = CHR ''-'' \<or> hd s = CHR ''+'') then tl s else s)
      in if ds = [] \<or> \<not> list_all isDigit ds then None
         else (let n = int (digitsValue ds); v = (if neg then - n else n)
               in if v < - (2 ^ 63) \<or> 2 ^ 63 - 1 < v then None else Some v))"

fun decdigits :: "nat \<Rightarrow> string" where
  "decdigits n =
     (if n < 10 then [''0123456789'' ! n] else decdigits (n div 10) @ [''0123456789'' ! (n mod 10)])"

declare decdigits.simps [simp del]

definition Itoa :: "int \<Rightarrow> string" where
  "Itoa i = (if i < 0 then CHR ''-'' # decdigits (nat (- i)) else decdigits (nat i))"

text \<open>
  \<open>strings.TrimSpace\<close> on the ASCII white space characters. Strings are taken to be
  ASCII text: Go also trims the Unicode white space characters outside ASCII (U+0085,
  U+00A0 and others), which are not modelled.
\<close>

definition isSpace :: "char \<Rightarrow> bool" where
  "isSpace c = ((of_char c :: nat) \<in> {9, 10, 11, 12, 13, 32})"

definition TrimSpace :: "string \<Rightarrow> string" where
  "TrimSpace s = rev (dropWhile isSpace (rev (dropWhile isSpace s)))"

text \<open>\<open>strings.ToLower\<close> on ASCII letters.\<close>

definition toLowerChar :: "char \<Rightarrow> char" where
  "toLowerChar c =
     (case map_of (zip ''ABCDEFGHIJKLMNOPQRSTUVWXYZ'' ''abcdefghijklmnopqrstuvwxyz'') c of
        Some l \<Rightarrow> l
      | None \<Rightarrow> c)"

definition ToLower :: "string \<Rightarrow> string" where
  "ToLower s = map toLowerChar s"

subsection \<open>Array filters\<close>

text \<open>
  The regular expression \<open>filterExpr\<close>,
  \<^verbatim>\<open>^@\.([A-Za-z0-9_.-]+)\s*==\s*['"](.*)['"]$\<close>, matched against a whole string. The first
  group is the longest run of field characters after \<open>@.\<close> (a shorter run would be
  followed by a field character, where white space or \<open>=\<close> is required); the second
  group is everything between the opening quote and the final character, which must be
  a quote, and contains no line feed. The result is the pair of the two groups.
\<close>

definition isFieldChar :: "char \<Rightarrow> bool" where
  "isFieldChar c =
     (let n = (of_char c :: nat)
      in (65 \<le> n \<and> n \<le> 90) \<or> (97 \<le> n \<and> n \<le> 122) \<or> (48 \<le> n \<and> n \<le> 57)
         \<or> c = CHR ''_'' \<or> c = CHR ''.'' \<or> c = CHR ''-'')"

definition isRegexSpace :: "char \<Rightarrow> bool" where
  "isRegexSpace c = ((of_char c :: nat) \<in> {9, 10, 12, 13, 32})"

definition isQuote :: "char \<Rightarrow> bool" where
  "isQuote c = (c = CHR 0x27 \<or> c = CHR 0x22)"

definition filterExpr :: "string \<Rightarrow> (string \<times> string) option" where
  "filterExpr s =
     (if take 2 s \<noteq> ''@.'' then None
      else (let r0 = drop 2 s;
                field = takeWhile isFieldChar r0;
                r1 = dropWhile isRegexSpace (dropWhile isFieldChar r0)
            in if field = [] \<or> take 2 r1 \<noteq> ''=='' then None
               else (let r2 = dropWhile isRegexSpace (drop 2 r1)
                     in if length r2 < 2 \<or> \<not> isQuote (hd r2) \<or> \<not> isQuote (last r2)
                           \<or> CHR 0x0A \<in> set (butlast (tl r2))
                        then None
                        else Some (field, butlast (tl r2)))))"

text \<open>
  \<open>matchesFilter\<close>. \<open>fmt.Sprintf("%v", v)\<close> is library code and is the parameter
  \<open>sprint\<close>.
\<close>

fun filterNavigate :: "jv \<Rightarrow> string list \<Rightarrow> jv option" where
  "filterNavigate current [] = Some current"
| "filterNavigate current (segment # rest) =
     (case current of
        JObj m \<Rightarrow> (case map_of m segment of
                     None \<Rightarrow> None
                   | Some c \<Rightarrow> filterNavigate c rest)
      | _ \<Rightarrow> None)"

definition matchesFilter :: "(jv \<Rightarrow> string) \<Rightarrow> jv \<Rightarrow> string \<Rightarrow> error + bool" where
  "matchesFilter sprint item expr =
     (case filterExpr (TrimSpace expr) of
        None \<Rightarrow> Inl (Error ''unsupported filter expression'')
      | Some (field, expected) \<Rightarrow>
          (case filterNavigate item (splitOn (CHR ''.'') field) of
             None \<Rightarrow> Inr False
           | Some current \<Rightarrow>
               (if current = JNull then Inr (expected = '''')
                else Inr (sprint current = expected))))"

subsection \<open>Path expansion\<close>

text \<open>A location reached during expansion: pointer segments and the value found there.\<close>

record pathState =
  st_pointer :: "string list"
  st_value :: jv

definition appendPointer :: "string list \<Rightarrow> string \<Rightarrow> string list" where
  "appendPointer base segment = base @ [segment]"

text \<open>
  \<open>applyKey\<close>: reading a missing key of a map yields nil, and traversing nil stays nil;
  any other value is an error.
\<close>

fun applyKeyLoop :: "string \<Rightarrow> pathState list \<Rightarrow> error + pathState list" where
  "applyKeyLoop key [] = Inr []"
| "applyKeyLoop key (st # states) =
     (case (case st_value st of
              JObj current \<Rightarrow> Inr (case map_of current key of Some c \<Rightarrow> c | None \<Rightarrow> JNull)
            | JNull \<Rightarrow> Inr JNull
            | _ \<Rightarrow> Inl (Error ''path segment expects an object'')) of
        Inl err \<Rightarrow> Inl err
      | Inr child \<Rightarrow>
          (case applyKeyLoop key states of
             Inl err \<Rightarrow> Inl err
           | Inr next \<Rightarrow> Inr (\<lparr>st_pointer = appendPointer (st_pointer st) key, st_value = child\<rparr> # next)))"

definition applyKey :: "pathState list \<Rightarrow> string \<Rightarrow> error + pathState list" where
  "applyKey states key = (if key = [] then Inr states else applyKeyLoop key states)"

fun applyIndex :: "pathState list \<Rightarrow> int \<Rightarrow> error + pathState list" where
  "applyIndex [] index = Inr []"
| "applyIndex (st # states) index =
     (case st_value st of
        JArr arr \<Rightarrow>
          (if index < 0 \<or> index \<ge> int (length arr) then Inl (Error ''array index out of bounds'')
           else (case applyIndex states index of
                   Inl err \<Rightarrow> Inl err
                 | Inr next \<Rightarrow>
                     Inr (\<lparr>st_pointer = appendPointer (st_pointer st) (Itoa index),
                           st_value = arr ! nat index\<rparr> # next)))
      | _ \<Rightarrow> Inl (Error ''path segment expects an array''))"

definition applyDash :: "pathState list \<Rightarrow> pathState list" where
  "applyDash states = map (\<lambda>st. \<lparr>st_pointer = appendPointer (st_pointer st) ''-'', st_value = JNull\<rparr>) states"

text \<open>The inner loop of \<open>applyFilter\<close> over the elements of one array, from index \<open>idx\<close>.\<close>

fun filterItems ::
  "(jv \<Rightarrow> string) \<Rightarrow> string \<Rightarrow> string list \<Rightarrow> nat \<Rightarrow> jv list \<Rightarrow> error + pathState list" where
  "filterItems sprint expr base idx [] = Inr []"
| "filterItems sprint expr base idx (item # items) =
     (case matchesFilter sprint item expr of
        Inl err \<Rightarrow> Inl err
      | Inr match \<Rightarrow>
          (case filterItems sprint expr base (Suc idx) items of
             Inl err \<Rightarrow> Inl err
           | Inr next \<Rightarrow>
               Inr (if match
                    then \<lparr>st_pointer = appendPointer base (Itoa (int idx)), st_value = item\<rparr> # next
                    else next)))"

fun applyFilter :: "(jv \<Rightarrow> string) \<Rightarrow> pathState list \<Rightarrow> string \<Rightarrow> error + pathState list" where
  "applyFilter sprint [] expr = Inr []"
| "applyFilter sprint (st # states) expr =
     (case (case st_value st of
              JArr arr \<Rightarrow> filterItems sprint expr (st_pointer st) 0 arr
            | _ \<Rightarrow> Inr []) of
        Inl err \<Rightarrow> Inl err
      | Inr found \<Rightarrow>
          (case applyFilter sprint states expr of
             Inl err \<Rightarrow> Inl err
           | Inr next \<Rightarrow> Inr (found @ next)))"

text \<open>
  \<open>applySegment\<close>: the segment is consumed from the left, one bracket group or one
  bracket-free token at a time. \<open>remaining\<close> is the unread rest of the segment.
\<close>

function applySegmentLoop ::
  "(jv \<Rightarrow> string) \<Rightarrow> pathState list \<Rightarrow> string \<Rightarrow> error + pathState list" where
  "applySegmentLoop sprint current remaining =
     (if remaining = [] then Inr current
      else if hd remaining = CHR ''[''
      then (if CHR '']'' \<notin> set remaining then Inl (Error ''unclosed bracket segment'')
            else (let content = takeWhile (\<lambda>c. c \<noteq> CHR '']'') (tl remaining);
                      remaining' = tl (dropWhile (\<lambda>c. c \<noteq> CHR '']'') remaining)
                  in (case (if take 2 content = ''?('' \<and> last content = CHR '')''
                            then applyFilter sprint current (butlast (drop 2 content))
                            else if content = ''-'' then Inr (applyDash current)
                            else (case Atoi content of
                                    None \<Rightarrow> Inl (Error ''unsupported array index'')
                                  | Some index \<Rightarrow> applyIndex current index)) of
                        Inl err \<Rightarrow> Inl err
                      | Inr next \<Rightarrow> applySegmentLoop sprint next remaining')))
      else (let token = takeWhile (\<lambda>c. c \<noteq> CHR ''['') remaining;
                remaining' = dropWhile (\<lambda>c. c \<noteq> CHR ''['') remaining
            in if token = [] then applySegmentLoop sprint current remaining'
               else (case (case Atoi token of
                             Some idx \<Rightarrow> applyIndex current idx
                           | None \<Rightarrow> applyKey current token) of
                       Inl err \<Rightarrow> Inl err
                     | Inr next \<Rightarrow> applySegmentLoop sprint next remaining')))"
  by pat_completeness auto
termination
proof (relation "measure (\<lambda>(sprint, current, remaining). length remaining)", goal_cases)
  case 1
  show ?case by simp
next
  case (2 sprint current remaining content remaining' nxt)
  have "length (dropWhile (\<lambda>c. c \<noteq> CHR '']'') remaining) \<le> length remaining"
    by (rule length_dropWhile_le)
  moreover from 2 have "dropWhile (\<lambda>c. c \<noteq> CHR '']'') remaining \<noteq> []"
    by simp
  ultimately show ?case using 2 by (cases "dropWhile (\<lambda>c. c \<noteq> CHR '']'') remaining") auto
next
  case (3 sprint current remaining token remaining')
  then show ?case by (cases remaining) auto
next
  case (4 sprint current remaining token remaining' nxt)
  then show ?case by (cases remaining) (auto simp: le_imp_less_Suc length_dropWhile_le)
qed

declare applySegmentLoop.simps [simp del]

definition applySegment :: "(jv \<Rightarrow> string) \<Rightarrow> pathState \<Rightarrow> string \<Rightarrow> error + pathState list" where
  "applySegment sprint state segment = applySegmentLoop sprint [state] segment"

definition splitRawPath :: "string \<Rightarrow> string list" where
  "splitRawPath path =
     (if path = [] then []
      else (let trimmed = TrimPrefix path ''/''
            in if trimmed = [] then [[]] else splitOn (CHR ''/'') trimmed))"

definition escapePointerSegment :: "string \<Rightarrow> string" where
  "escapePointerSegment seg =
     concat (map (\<lambda>c. if c = CHR ''/'' then ''~1'' else [c])
               (concat (map (\<lambda>c. if c = CHR ''~'' then ''~0'' else [c]) seg)))"

text \<open>\<open>strings.ReplaceAll\<close> of a two-character pattern, scanning from the left.\<close>

fun replaceAll2 :: "char \<Rightarrow> char \<Rightarrow> string \<Rightarrow> string \<Rightarrow> string" where
  "replaceAll2 a b new (x # y # rest) =
     (if x = a \<and> y = b then new @ replaceAll2 a b new rest
      else x # replaceAll2 a b new (y # rest))"
| "replaceAll2 a b new s = s"

definition unescapePointerSegment :: "string \<Rightarrow> string" where
  "unescapePointerSegment seg =
     replaceAll2 (CHR ''~'') (CHR ''0'') ''~'' (replaceAll2 (CHR ''~'') (CHR ''1'') ''/'' seg)"

definition buildJSONPointer :: "string list \<Rightarrow> string" where
  "buildJSONPointer segments =
     concat (map (\<lambda>seg. CHR ''/'' # (if seg = ''-'' then seg else escapePointerSegment seg)) segments)"

definition splitPointer :: "string \<Rightarrow> string list" where
  "splitPointer pointer =
     (if pointer = [] then []
      else (let trimmed = TrimPrefix pointer ''/''
            in if trimmed = [] then [[]]
               else map (\<lambda>part. if part \<noteq> ''-'' then unescapePointerSegment part else part)
                      (splitOn (CHR ''/'') trimmed)))"

text \<open>Expanding every current state by one segment; the first error ends the expansion.\<close>

fun expandStates :: "(jv \<Rightarrow> string) \<Rightarrow> string \<Rightarrow> pathState list \<Rightarrow> error + pathState list" where
  "expandStates sprint segment [] = Inr []"
| "expandStates sprint segment (st # states) =
     (case applySegment sprint st segment of
        Inl err \<Rightarrow> Inl err
      | Inr expanded \<Rightarrow>
          (case expandStates sprint segment states of
             Inl err \<Rightarrow> Inl err
           | Inr next \<Rightarrow> Inr (expanded @ next)))"

fun expandSegments :: "(jv \<Rightarrow> string) \<Rightarrow> pathState list \<Rightarrow> string list \<Rightarrow> error + pathState list" where
  "expandSegments sprint states [] = Inr states"
| "expandSegments sprint states (segment # segments) =
     (if segment = ''-'' then expandSegments sprint (applyDash states) segments
      else (case expandStates sprint segment states of
              Inl err \<Rightarrow> Inl err
            | Inr nextStates \<Rightarrow>
                (if length nextStates = 0 then Inr nextStates
                 else expandSegments sprint nextStates segments)))"

definition expandPaths :: "(jv \<Rightarrow> string) \<Rightarrow> jmap \<Rightarrow> string \<Rightarrow> error + string list" where
  "expandPaths sprint root rawPath =
     (if rawPath = [] then Inr [[]]
      else (case expandSegments sprint [\<lparr>st_pointer = [], st_value = JObj root\<rparr>] (splitRawPath rawPath) of
              Inl err \<Rightarrow> Inl err
            | Inr states \<Rightarrow> Inr (map (\<lambda>st. buildJSONPointer (st_pointer st)) states)))"

subsection \<open>Copies\<close>

fun deepCopyMap :: "jmap \<Rightarrow> jmap"
  and deepCopySlice :: "jv list \<Rightarrow> jv list" where
  "deepCopyMap [] = []"
| "deepCopyMap ((k, v) # src) =
     (k, case v of
           JObj typed \<Rightarrow> JObj (deepCopyMap typed)
         | JArr typed \<Rightarrow> JArr (deepCopySlice typed)
         | _ \<Rightarrow> v) # deepCopyMap src"
| "deepCopySlice [] = []"
| "deepCopySlice (v # src) =
     (case v of
        JObj typed \<Rightarrow> JObj (deepCopyMap typed)
      | JArr typed \<Rightarrow> JArr (deepCopySlice typed)
      | _ \<Rightarrow> v) # deepCopySlice src"

definition cloneValue :: "jv \<Rightarrow> jv" where
  "cloneValue v =
     (case v of
        JObj typed \<Rightarrow> JObj (deepCopyMap typed)
      | JArr typed \<Rightarrow> JArr (deepCopySlice typed)
      | _ \<Rightarrow> v)"

subsection \<open>Auto-creation of parents\<close>

text \<open>
  The target of a patch is mutated in place; in the model every function returns the
  updated tree. After an error the partially updated tree is not tracked.

  \<open>ensureParentExists\<close>: the loop over the parent segments, at the node \<open>current\<close> with
  the segments from the current one on. The result is the updated node.
\<close>

fun ensureParentLoop :: "jv \<Rightarrow> string list \<Rightarrow> error + jv" where
  "ensureParentLoop current (seg # nxt # rest) =
     (case current of
        JObj node \<Rightarrow>
          (case (let created = (if nxt = ''-'' then Inr (JArr [])
                                else if Atoi nxt \<noteq> None
                                then Inl (Error ''array index out of bounds at segment'')
                                else Inr (JObj []))
                 in case map_of node seg of
                      None \<Rightarrow> created
                    | Some c \<Rightarrow> (if c = JNull then created else Inr c)) of
             Inl err \<Rightarrow> Inl err
           | Inr child \<Rightarrow>
               (case ensureParentLoop child (nxt # rest) of
                  Inl err \<Rightarrow> Inl err
                | Inr child' \<Rightarrow> Inr (JObj (AList.update seg child' node))))
      | JArr node \<Rightarrow>
          (case Atoi seg of
             None \<Rightarrow> Inl (Error ''expected array index at segment'')
           | Some index \<Rightarrow>
               (if index < 0 \<or> index \<ge> int (length node)
                then Inl (Error ''array index out of bounds at segment'')
                else (case ensureParentLoop (node ! nat index) (nxt # rest) of
                        Inl err \<Rightarrow> Inl err
                      | Inr child' \<Rightarrow> Inr (JArr (node[nat index := child'])))))
      | _ \<Rightarrow> Inl (Error ''cannot traverse segment''))"
| "ensureParentLoop current segments = Inr current"

definition asMap :: "jv \<Rightarrow> jmap" where
  "asMap v = (case v of JObj m \<Rightarrow> m | _ \<Rightarrow> [])"

definition ensureParentExists :: "jmap \<Rightarrow> string \<Rightarrow> error + jmap" where
  "ensureParentExists root pointer =
     (let segments = splitPointer pointer
      in if length segments = 0 then Inr root
         else (case ensureParentLoop (JObj root) segments of
                 Inl err \<Rightarrow> Inl err
               | Inr root' \<Rightarrow> Inr (asMap root')))"

definition determineNextContainerType :: "string list \<Rightarrow> nat \<Rightarrow> string \<Rightarrow> jv" where
  "determineNextContainerType segments index last_seg =
     (let nextSeg = (if index + 1 < length segments then segments ! (index + 1) else last_seg)
      in if nextSeg = ''-'' then JArr []
         else if Atoi nextSeg \<noteq> None then JArr []
         else JObj [])"

text \<open>
  \<open>navigateToParent\<close> returns a reference to the parent container, through which the
  caller then writes. In the model the caller's write is the function \<open>write\<close>, from the
  parent container to its updated value (or an error), and the path to the parent is
  rebuilt around its result. \<open>i\<close> is the loop index and \<open>segs\<close> the parent segments from
  \<open>i\<close> on.
\<close>

fun navigateLoop ::
  "bool \<Rightarrow> string list \<Rightarrow> string \<Rightarrow> (jv \<Rightarrow> error + jv) \<Rightarrow> nat \<Rightarrow> string list \<Rightarrow> jv \<Rightarrow> error + jv" where
  "navigateLoop create parentSegs last_seg write i [] current = write current"
| "navigateLoop create parentSegs last_seg write i (seg # segs) current =
     (case current of
        JObj node \<Rightarrow>
          (case (let created = (if \<not> create then Inl (Error ''missing path at segment'')
                                else Inr (determineNextContainerType parentSegs i last_seg))
                 in case map_of node seg of
                      None \<Rightarrow> created
                    | Some c \<Rightarrow> (if c = JNull then created else Inr c)) of
             Inl err \<Rightarrow> Inl err
           | Inr child \<Rightarrow>
               (case navigateLoop create parentSegs last_seg write (Suc i) segs child of
                  Inl err \<Rightarrow> Inl err
                | Inr child' \<Rightarrow> Inr (JObj (AList.update seg child' node))))
      | JArr node \<Rightarrow>
          (case Atoi seg of
             None \<Rightarrow> Inl (Error ''expected array index at segment'')
           | Some index \<Rightarrow>
               (if index < 0 \<or> index \<ge> int (length node)
                then Inl (Error ''array index out of bounds at segment'')
                else (case navigateLoop create parentSegs last_seg write (Suc i) segs (node ! nat index) of
                        Inl err \<Rightarrow> Inl err
                      | Inr child' \<Rightarrow> Inr (JArr (node[nat index := child'])))))
      | _ \<Rightarrow> Inl (Error ''cannot traverse segment''))"

definition navigateToParent ::
  "jmap \<Rightarrow> string \<Rightarrow> bool \<Rightarrow> (jv \<Rightarrow> string \<Rightarrow> error + jv) \<Rightarrow> error + jv" where
  "navigateToParent root pointer create write =
     (let segments = splitPointer pointer
      in if length segments = 0 then write (JObj root) []
         else navigateLoop create (butlast segments) (last segments) (\<lambda>parent. write parent (last segments))
                0 (butlast segments) (JObj root))"

subsection \<open>Shallow merge\<close>

definition mergeShallowInto :: "jmap \<Rightarrow> jmap \<Rightarrow> jmap" where
  "mergeShallowInto target overlay = foldl (\<lambda>t (k, v). AList.update k (cloneValue v) t) target overlay"

text \<open>What \<open>mergeShallowAtPointer\<close> does with the parent container and the final segment.\<close>

definition mergeShallowWrite :: "jmap \<Rightarrow> jv \<Rightarrow> string \<Rightarrow> error + jv" where
  "mergeShallowWrite val parent last_seg =
     (case parent of
        JObj container \<Rightarrow>
          (case map_of container last_seg of
             None \<Rightarrow> Inr (JObj (AList.update last_seg (JObj (deepCopyMap val)) container))
           | Some JNull \<Rightarrow> Inr (JObj (AList.update last_seg (JObj (deepCopyMap val)) container))
           | Some (JObj targetMap) \<Rightarrow>
               Inr (JObj (AList.update last_seg (JObj (mergeShallowInto targetMap val)) container))
           | Some _ \<Rightarrow> Inr (JObj (AList.update last_seg (JObj (deepCopyMap val)) container)))
      | JArr container \<Rightarrow>
          (if last_seg = ''-'' then Inl (Error ''mergeShallow operation cannot target append position'')
           else (case Atoi last_seg of
                   None \<Rightarrow> Inl (Error ''invalid array index for mergeShallow'')
                 | Some index \<Rightarrow>
                     (if index < 0 \<or> index \<ge> int (length container)
                      then Inl (Error ''array index out of bounds for mergeShallow'')
                      else (case container ! nat index of
                              JObj targetMap \<Rightarrow>
                                Inr (JArr (container[nat index := JObj (mergeShallowInto targetMap val)]))
                            | _ \<Rightarrow> Inr (JArr (container[nat index := JObj (deepCopyMap val)]))))))
      | _ \<Rightarrow> Inl (Error ''mergeShallow parent must be object or array''))"

definition mergeShallowAtPointer :: "jmap \<Rightarrow> string \<Rightarrow> jmap \<Rightarrow> error + jmap" where
  "mergeShallowAtPointer root pointer val =
     (case navigateToParent root pointer True (mergeShallowWrite val) of
        Inl err \<Rightarrow> Inl err
      | Inr root' \<Rightarrow> Inr (asMap root'))"

fun mergeShallowPointers :: "jmap \<Rightarrow> jmap \<Rightarrow> string list \<Rightarrow> error + jmap" where
  "mergeShallowPointers valueMap target [] = Inr target"
| "mergeShallowPointers valueMap target (pointer # resolved) =
     (case mergeShallowAtPointer target pointer valueMap of
        Inl err \<Rightarrow> Inl err
      | Inr target' \<Rightarrow> mergeShallowPointers valueMap target' resolved)"

definition applyMergeShallow :: "(jv \<Rightarrow> string) \<Rightarrow> jmap \<Rightarrow> string \<Rightarrow> jv \<Rightarrow> error + jmap" where
  "applyMergeShallow sprint target rawPath val =
     (case val of
        JObj valueMap \<Rightarrow>
          (case expandPaths sprint target rawPath of
             Inl err \<Rightarrow> Inl err
           | Inr resolved \<Rightarrow>
               (if length resolved = 0 then Inr target
                else mergeShallowPointers valueMap target resolved))
      | _ \<Rightarrow> Inl (Error ''mergeShallow value must be an object''))"

subsection \<open>RFC 6902 operations\<close>

text \<open>
  \<open>applyJSONPatch\<close> serialises the target and a one-operation patch document, hands
  both to the JSON-Patch library and replaces the target's content by the decoded
  result. The library (with the serialisation round trip) is the parameter \<open>jsonpatch\<close>:
  from the operation name, the pointer, the value (absent for \<open>remove\<close>) and the
  document to the patched document or an error.
\<close>

type_synonym jsonpatch = "string \<Rightarrow> string \<Rightarrow> jv option \<Rightarrow> jmap \<Rightarrow> error + jmap"

definition opRemove :: string where
  "opRemove = ''remove''"

definition applyJSONPatch :: "jsonpatch \<Rightarrow> jmap \<Rightarrow> string \<Rightarrow> string \<Rightarrow> jv \<Rightarrow> error + jmap" where
  "applyJSONPatch jsonpatch target op pointer val =
     (case jsonpatch op pointer (if op \<noteq> opRemove then Some val else None) target of
        Inl err \<Rightarrow> Inl (Wrap ''failed to apply JSON patch'' err)
      | Inr updated \<Rightarrow> Inr updated)"

fun applyPointers :: "jsonpatch \<Rightarrow> string \<Rightarrow> jv \<Rightarrow> jmap \<Rightarrow> string list \<Rightarrow> error + jmap" where
  "applyPointers jsonpatch op val target [] = Inr target"
| "applyPointers jsonpatch op val target (pointer # resolved) =
     (case (if op = ''add'' then ensureParentExists target pointer else Inr target) of
        Inl err \<Rightarrow> Inl err
      | Inr target1 \<Rightarrow>
          (case applyJSONPatch jsonpatch target1 op pointer val of
             Inl err \<Rightarrow> Inl err
           | Inr target2 \<Rightarrow> applyPointers jsonpatch op val target2 resolved))"

definition applyRFC6902 ::
  "(jv \<Rightarrow> string) \<Rightarrow> jsonpatch \<Rightarrow> jmap \<Rightarrow> string \<Rightarrow> string \<Rightarrow> jv \<Rightarrow> error + jmap" where
  "applyRFC6902 sprint jsonpatch target op rawPath val =
     (case expandPaths sprint target rawPath of
        Inl err \<Rightarrow> Inl err
      | Inr resolved \<Rightarrow>
          (if length resolved = 0 then Inr target
           else applyPointers jsonpatch op val target resolved))"

subsection \<open>Operations and specs\<close>

record JSONPatchOperation =
  Op :: string
  Path :: string
  Value :: jv

record TargetSpec =
  Kind :: string
  Group :: string
  Version :: string
  TargetName :: string
  Where :: string

record PatchSpec =
  ForEach :: string
  Var :: string
  Target :: TargetSpec
  Operations :: "JSONPatchOperation list"

text \<open>
  A \<open>RenderFunc\<close> evaluates the expressions of a value against the context; it is
  supplied by the caller and assumed not to modify its arguments. A
  \<open>MissingDataChecker\<close> may be nil (\<open>None\<close>). The context map handed to
  \<open>ApplySpec\<close> is an allocated map (writing a binding into a nil map panics), and the
  values it holds share no structure with the resources being patched.
\<close>

type_synonym RenderFunc = "jv \<Rightarrow> ctx \<Rightarrow> error + jv"

type_synonym MissingDataChecker = "(error \<Rightarrow> bool) option"

definition ApplyOperation ::
  "(jv \<Rightarrow> string) \<Rightarrow> jsonpatch \<Rightarrow> jmap \<Rightarrow> JSONPatchOperation \<Rightarrow> ctx \<Rightarrow> RenderFunc \<Rightarrow> error + jmap" where
  "ApplyOperation sprint jsonpatch target operation inputs render =
     (case render (JStr (Path operation)) inputs of
        Inl err \<Rightarrow> Inl (Wrap ''failed to evaluate patch path'' err)
      | Inr pathValue \<Rightarrow>
          (case pathValue of
             JStr pathStr \<Rightarrow>
               (case (if Op operation \<noteq> opRemove then render (Value operation) inputs else Inr JNull) of
                  Inl err \<Rightarrow> Inl (Wrap ''failed to evaluate patch value'' err)
                | Inr val \<Rightarrow>
                    (let op = ToLower (Op operation)
                     in if op = ''add'' \<or> op = ''replace'' \<or> op = opRemove \<or> op = ''test''
                           \<or> op = ''move'' \<or> op = ''copy''
                        then applyRFC6902 sprint jsonpatch target op pathStr val
                        else if op = ''mergeshallow'' then applyMergeShallow sprint target pathStr val
                        else Inl (Error ''unknown patch operation'')))
           | _ \<Rightarrow> Inl (Error ''patch path must evaluate to a string'')))"

definition splitAPIVersion :: "string \<Rightarrow> string \<times> string" where
  "splitAPIVersion apiVersion =
     (if apiVersion = [] then ([], [])
      else if CHR ''/'' \<in> set apiVersion
      then (takeWhile (\<lambda>c. c \<noteq> CHR ''/'') apiVersion, tl (dropWhile (\<lambda>c. c \<noteq> CHR ''/'') apiVersion))
      else ([], apiVersion))"

definition targetMatches :: "TargetSpec \<Rightarrow> jmap \<Rightarrow> bool" where
  "targetMatches target resource =
     (let gv = (case map_of resource ''apiVersion'' of
                  Some (JStr s) \<Rightarrow> splitAPIVersion s
                | _ \<Rightarrow> ([], []))
      in (Kind target = [] \<or> map_of resource ''kind'' = Some (JStr (Kind target)))
         \<and> (Group target = [] \<or> fst gv = Group target)
         \<and> (Version target = [] \<or> snd gv = Version target)
         \<and> (TargetName target = []
              \<or> (case map_of resource ''metadata'' of
                    Some (JObj metadata) \<Rightarrow> map_of metadata ''name'' = Some (JStr (TargetName target))
                  | _ \<Rightarrow> False)))"

text \<open>
  \<open>FindTargetResources\<close> returns the matching resources themselves, which the
  operations then mutate in place; in the model it returns their positions in the list.
  The \<open>selector\<close> argument is not used by the function.
\<close>

definition FindTargetResources :: "jmap list \<Rightarrow> TargetSpec \<Rightarrow> 'm \<Rightarrow> nat list" where
  "FindTargetResources resources target selector =
     filter (\<lambda>i. targetMatches target (resources ! i)) [0 ..< length resources]"

text \<open>Restoring a binding that was saved as \<open>previous, had := m[key]\<close>.\<close>

definition restoreBinding :: "string \<Rightarrow> jv option \<Rightarrow> ctx \<Rightarrow> ctx" where
  "restoreBinding key previous m =
     (case previous of
        Some p \<Rightarrow> m(key \<mapsto> p)
      | None \<Rightarrow> m(key := None))"

text \<open>
  The closure \<open>matchTarget\<close>; the second component of the result is the context map
  as the closure leaves it.
\<close>

definition matchTarget ::
  "RenderFunc \<Rightarrow> MissingDataChecker \<Rightarrow> string \<Rightarrow> jmap \<Rightarrow> ctx \<Rightarrow> (error + bool) \<times> ctx" where
  "matchTarget render isMissingData wher target baseInputs =
     (if wher = [] then (Inr True, baseInputs)
      else (let previous = baseInputs ''resource'';
                bound = baseInputs(''resource'' \<mapsto> JObj target);
                result = render (JStr wher) bound;
                restored = restoreBinding ''resource'' previous bound
            in (case result of
                  Inl err \<Rightarrow>
                    (if (case isMissingData of None \<Rightarrow> False | Some chk \<Rightarrow> chk err)
                     then (Inr False, restored)
                     else (Inl (Wrap ''failed to evaluate target.where'' err), restored))
                | Inr (JBool boolResult) \<Rightarrow> (Inr boolResult, restored)
                | Inr _ \<Rightarrow> (Inl (Error ''target.where must evaluate to a boolean''), restored))))"

text \<open>
  The closure \<open>executeOperations\<close>. The context entry \<open>resource\<close> is the target map
  itself, so every operation sees the target as the previous operations left it. The
  binding is restored where an operation fails and after the last operation.
\<close>

fun operationsLoop ::
  "(jv \<Rightarrow> string) \<Rightarrow> jsonpatch \<Rightarrow> RenderFunc \<Rightarrow> jv option \<Rightarrow> JSONPatchOperation list \<Rightarrow> jmap
     \<Rightarrow> ctx \<Rightarrow> (error + jmap) \<times> ctx" where
  "operationsLoop sprint jsonpatch render previous [] target bound =
     (Inr target, restoreBinding ''resource'' previous bound)"
| "operationsLoop sprint jsonpatch render previous (op # ops) target bound =
     (case ApplyOperation sprint jsonpatch target op bound render of
        Inl err \<Rightarrow> (Inl err, restoreBinding ''resource'' previous bound)
      | Inr target' \<Rightarrow>
          operationsLoop sprint jsonpatch render previous ops target'
            (bound(''resource'' \<mapsto> JObj target')))"

definition executeOperations ::
  "(jv \<Rightarrow> string) \<Rightarrow> jsonpatch \<Rightarrow> RenderFunc \<Rightarrow> JSONPatchOperation list \<Rightarrow> jmap \<Rightarrow> ctx
     \<Rightarrow> (error + jmap) \<times> ctx" where
  "executeOperations sprint jsonpatch render ops target baseInputs =
     (let previous = baseInputs ''resource'';
          bound = baseInputs(''resource'' \<mapsto> JObj target)
      in operationsLoop sprint jsonpatch render previous ops target bound)"

text \<open>The loop over the targets, for one binding of the iteration variable (or none).\<close>

fun targetsLoop ::
  "(jv \<Rightarrow> string) \<Rightarrow> jsonpatch \<Rightarrow> RenderFunc \<Rightarrow> MissingDataChecker \<Rightarrow> PatchSpec
     \<Rightarrow> nat list \<Rightarrow> jmap list \<Rightarrow> ctx \<Rightarrow> (error + jmap list) \<times> ctx" where
  "targetsLoop sprint jsonpatch render isMissingData spec [] resources inputs = (Inr resources, inputs)"
| "targetsLoop sprint jsonpatch render isMissingData spec (t # targets) resources inputs =
     (case matchTarget render isMissingData (Where (Target spec)) (resources ! t) inputs of
        (Inl err, inputs1) \<Rightarrow> (Inl err, inputs1)
      | (Inr match, inputs1) \<Rightarrow>
          (if \<not> match then targetsLoop sprint jsonpatch render isMissingData spec targets resources inputs1
           else (case executeOperations sprint jsonpatch render (Operations spec) (resources ! t) inputs1 of
                   (Inl err, inputs2) \<Rightarrow> (Inl err, inputs2)
                 | (Inr target', inputs2) \<Rightarrow>
                     targetsLoop sprint jsonpatch render isMissingData spec targets
                       (resources[t := target']) inputs2)))"

text \<open>
  The loop over the items of a \<open>forEach\<close>. \<open>previous\<close> is the binding of the
  iteration variable saved before the loop; it is restored where a target fails (in its
  \<open>where\<close> expression or in its operations) and after the last item.
\<close>

fun itemsLoop ::
  "(jv \<Rightarrow> string) \<Rightarrow> jsonpatch \<Rightarrow> RenderFunc \<Rightarrow> MissingDataChecker \<Rightarrow> PatchSpec
     \<Rightarrow> nat list \<Rightarrow> string \<Rightarrow> jv option \<Rightarrow> jv list \<Rightarrow> jmap list \<Rightarrow> ctx
     \<Rightarrow> (error + jmap list) \<times> ctx" where
  "itemsLoop sprint jsonpatch render isMissingData spec targets varName previous [] resources inputs =
     (Inr resources, restoreBinding varName previous inputs)"
| "itemsLoop sprint jsonpatch render isMissingData spec targets varName previous (item # items)
     resources inputs =
     (case targetsLoop sprint jsonpatch render isMissingData spec targets resources
             (inputs(varName \<mapsto> item)) of
        (Inl err, inputs1) \<Rightarrow> (Inl err, restoreBinding varName previous inputs1)
      | (Inr resources', inputs1) \<Rightarrow>
          itemsLoop sprint jsonpatch render isMissingData spec targets varName previous items
            resources' inputs1)"

text \<open>
  \<open>ApplySpec\<close>. The result is the error or the patched resources, together with the
  context map as the call leaves it. The source writes the loop over the targets twice,
  once inside the loop over the items and once for a spec without \<open>forEach\<close>; the
  model uses \<open>targetsLoop\<close> for both.
\<close>

definition ApplySpec ::
  "(jv \<Rightarrow> string) \<Rightarrow> jsonpatch \<Rightarrow> jmap list \<Rightarrow> PatchSpec \<Rightarrow> ctx \<Rightarrow> 'm \<Rightarrow> RenderFunc
     \<Rightarrow> MissingDataChecker \<Rightarrow> (error + jmap list) \<times> ctx" where
  "ApplySpec sprint jsonpatch resources spec inputs matcher render isMissingData =
     (let targets = FindTargetResources resources (Target spec) matcher
      in if length (Operations spec) = 0 then (Inr resources, inputs)
         else if ForEach spec \<noteq> []
         then (case render (JStr (ForEach spec)) inputs of
                 Inl err \<Rightarrow> (Inl (Wrap ''failed to evaluate patch forEach expression'' err), inputs)
               | Inr itemsRaw \<Rightarrow>
                   (case itemsRaw of
                      JArr items \<Rightarrow>
                        (let varName = (if Var spec = [] then ''item'' else Var spec);
                             previous = inputs varName
                         in itemsLoop sprint jsonpatch render isMissingData spec targets varName
                              previous items resources inputs)
                    | _ \<Rightarrow> (Inl (Error ''forEach expression must evaluate to an array''), inputs)))
         else targetsLoop sprint jsonpatch render isMissingData spec targets resources inputs)"


section \<open>Notions used to state the properties\<close>

text \<open>The value found by following a list of keys through nested mappings, if there is one.\<close>

fun lookupPath :: "jv \<Rightarrow> string list \<Rightarrow> jv option" where
  "lookupPath v [] = Some v"
| "lookupPath (JObj m) (k # ks) =
     (case map_of m k of
        None \<Rightarrow> None
      | Some c \<Rightarrow> lookupPath c ks)"
| "lookupPath v (k # ks) = None"

fun isMapping :: "jv \<Rightarrow> bool" where
  "isMapping (JObj m) = True"
| "isMapping v = False"

text \<open>Every mapping of the tree has distinct keys, as every Go map has.\<close>

fun distinctKeys :: "jv \<Rightarrow> bool" where
  "distinctKeys (JObj m) = (distinct (map fst m) \<and> list_all (\<lambda>(k, v). distinctKeys v) m)"
| "distinctKeys (JArr xs) = list_all distinctKeys xs"
| "distinctKeys v = True"

text \<open>
  An override mapping leaves a key path untouched when, following the path, it runs out
  of keys before the end: some key of the path is missing in the override while all
  keys before it lead to mappings.
\<close>

fun untouched :: "jmap \<Rightarrow> string list \<Rightarrow> bool" where
  "untouched ov [] = False"
| "untouched ov (k # ks) =
     (case map_of ov k of
        None \<Rightarrow> True
      | Some (JObj om) \<Rightarrow> ks \<noteq> [] \<and> untouched om ks
      | Some _ \<Rightarrow> False)"

text \<open>
  The environment-specific overrides that apply to a component, and to an addon
  instance (keyed by addon name and instance id), as raw extensions.
\<close>

definition componentOverrides :: "ComponentContextInput \<Rightarrow> RawExtension option" where
  "componentOverrides inp =
     (case EnvSettings inp of
        None \<Rightarrow> None
      | Some es \<Rightarrow> Overrides es)"

definition addonInstanceOverrides :: "AddonContextInput \<Rightarrow> Addon \<Rightarrow> RawExtension option" where
  "addonInstanceOverrides inp addon =
     (case AddonEnvSettings inp of
        None \<Rightarrow> None
      | Some es \<Rightarrow>
          (case AddonOverrides es of
             None \<Rightarrow> None
           | Some allOverrides \<Rightarrow>
               (case map_of allOverrides (AddonName addon) of
                  None \<Rightarrow> None
                | Some addonOverrides \<Rightarrow> map_of addonOverrides (InstanceID (Instance inp)))))"

text \<open>
  The schema that governs a key path (following declared properties), if there is one,
  and a value with the defaults of such a schema applied.
\<close>

fun schemaAt :: "schema \<Rightarrow> string list \<Rightarrow> schema option" where
  "schemaAt s [] = Some s"
| "schemaAt s (k # ks) =
     (case map_of (sproperties s) k of
        None \<Rightarrow> None
      | Some ps \<Rightarrow> schemaAt ps ks)"

definition defaulted :: "schema option \<Rightarrow> jv \<Rightarrow> jv" where
  "defaulted s v = (case s of None \<Rightarrow> v | Some ps \<Rightarrow> ApplyDefaults v ps)"

text \<open>
  An override value laid over what the declared parameters hold at the same place: two
  mappings are merged key by key, anything else (a scalar, a sequence, a mapping over a
  value that is not a mapping or is absent) is the override value itself.
\<close>

definition laidOver :: "jv option \<Rightarrow> jv \<Rightarrow> jv" where
  "laidOver existing v =
     (case (existing, v) of
        (Some (JObj existingMap), JObj overrideMap) \<Rightarrow> JObj (deepMerge existingMap overrideMap)
      | _ \<Rightarrow> v)"

text \<open>
  What the three sources determine for a top-level key, highest precedence first: the
  override (laid over the declared value), else the declared value, both with the
  defaults of the key's schema applied inside; else the schema's default for the key;
  else nothing.
\<close>

definition parameterAt :: "jmap \<Rightarrow> jmap \<Rightarrow> schema \<Rightarrow> string \<Rightarrow> jv option" where
  "parameterAt overrides declared structural k =
     (case map_of overrides k of
        Some ov \<Rightarrow>
          Some (defaulted (map_of (sproperties structural) k) (laidOver (map_of declared k) ov))
      | None \<Rightarrow>
          (case map_of declared k of
             Some dv \<Rightarrow> Some (defaulted (map_of (sproperties structural) k) dv)
           | None \<Rightarrow>
               (case map_of (sproperties structural) k of
                  None \<Rightarrow> None
                | Some ps \<Rightarrow>
                    (case sdefault ps of
                       None \<Rightarrow> None
                     | Some d \<Rightarrow> Some (ApplyDefaults d ps)))))"

text \<open>
  The precedence of parameter sources at every key path, highest first.
  \<^item> A value the overrides hold at a key path, laid over what the declared parameters
    hold there, is the parameter at that path, with the defaults of the path's schema
    applied inside it. So an override that is a scalar or a sequence is the parameter
    as it stands, whatever the declared parameters and the schema defaults say.
  \<^item> A value the declared parameters hold at a key path that the overrides leave
    untouched is the parameter at that path, again with defaults applied inside it.
  \<^item> Where the merged sources hold a mapping that lacks a key for which the schema
    declares a default, the parameter at that key is the default (with the defaults of
    its own schema applied inside it).
  \<^item> At every top-level key the parameter is exactly what \<open>parameterAt\<close> gives, so
    the parameters have no other keys.
\<close>

definition precedence :: "jmap \<Rightarrow> jmap \<Rightarrow> schema \<Rightarrow> jv \<Rightarrow> bool" where
  "precedence overrides declared structural params \<longleftrightarrow>
     (\<forall>p v. p \<noteq> [] \<and> lookupPath (JObj overrides) p = Some v
            \<longrightarrow> lookupPath params p
                  = Some (defaulted (schemaAt structural p) (laidOver (lookupPath (JObj declared) p) v)))
     \<and> (\<forall>p v. lookupPath (JObj declared) p = Some v \<and> untouched overrides p
            \<longrightarrow> lookupPath params p = Some (defaulted (schemaAt structural p) v))
     \<and> (\<forall>q m k sq ps d.
              lookupPath (JObj (deepMerge declared overrides)) q = Some (JObj m) \<and> map_of m k = None
              \<and> schemaAt structural q = Some sq \<and> map_of (sproperties sq) k = Some ps
              \<and> sdefault ps = Some d
            \<longrightarrow> lookupPath params (q @ [k]) = Some (ApplyDefaults d ps))
     \<and> (\<forall>k. lookupPath params [k] = parameterAt overrides declared structural k)"



text \<open>The tree with the value at a key path (through nested mappings) replaced.\<close>

fun replaceAt :: "jv \<Rightarrow> string list \<Rightarrow> jv \<Rightarrow> jv" where
  "replaceAt v [] new = new"
| "replaceAt (JObj m) (k # ks) new =
     JObj (AList.update k (replaceAt (case map_of m k of Some c \<Rightarrow> c | None \<Rightarrow> JNull) ks new) m)"
| "replaceAt v (k # ks) new = v"

text \<open>The text of the equality filter \<open>@.field=='expected'\<close>.\<close>

definition filterText :: "string \<Rightarrow> string \<Rightarrow> string" where
  "filterText field expected = ''@.'' @ field @ ''=='' @ [CHR 0x27] @ expected @ [CHR 0x27]"

section \<open>Concrete inputs\<close>

text \<open>A schema conversion that yields a schema without declared fields.\<close>

definition emptySchema :: "jmap list \<Rightarrow> error + schema" where
  "emptySchema schemas = Inr (Schema None [] None)"

text \<open>A component context input without workload, environment name and metadata.\<close>

definition bareInput :: ComponentContextInput where
  "bareInput =
     \<lparr>Component = Some \<lparr>Name = ''web'', Namespace = [], Parameters = None\<rparr>,
      ComponentTypeDefinition = Some \<lparr>SchemaParameters = None, SchemaEnvOverrides = None\<rparr>,
      EnvSettings = None,
      Workload = None,
      Environment = [],
      AdditionalMetadata = []\<rparr>"

text \<open>
  A component context input with parameters, environment overrides, a workload, an
  environment name and metadata, and the schema its type definition converts to.
\<close>

definition webStructural :: schema where
  "webStructural =
     Schema None
       [(''replicas'', Schema (Some (JInt 1)) [] None),
        (''port'', Schema (Some (JInt 80)) [] None),
        (''cpu'', Schema (Some (JStr ''100m'')) [] None),
        (''resources'', Schema None [(''memory'', Schema (Some (JStr ''64Mi'')) [] None)] None)]
       None"

definition webSchema :: "jmap list \<Rightarrow> error + schema" where
  "webSchema schemas = Inr webStructural"

definition webDeclared :: jmap where
  "webDeclared =
     [(''replicas'', JInt 2), (''port'', JInt 8080), (''image'', JStr ''web:v1''),
      (''resources'', JObj [(''limit'', JStr ''1'')])]"

definition webOverrides :: jmap where
  "webOverrides = [(''replicas'', JInt 5), (''resources'', JObj [(''cpu'', JStr ''2'')])]"

definition webInput :: ComponentContextInput where
  "webInput =
     \<lparr>Component = Some
        \<lparr>Name = ''web'', Namespace = ''shop'',
         Parameters = Some (RawJSON (Inr webDeclared))\<rparr>,
      ComponentTypeDefinition = Some \<lparr>SchemaParameters = None, SchemaEnvOverrides = None\<rparr>,
      EnvSettings = Some
        \<lparr>Overrides = Some (RawJSON (Inr webOverrides)),
         AddonOverrides = None\<rparr>,
      Workload = Some \<lparr>WorkloadName = ''web'', Containers = [], Endpoints = [], Connections = []\<rparr>,
      Environment = ''prod'',
      AdditionalMetadata = [(''name'', ''web-prod'')]\<rparr>"

text \<open>
  A component whose parameters hold scalars, a mapping and sequences, with overrides for
  some of them, and a schema with defaults at the top level, inside a mapping and for
  the elements of a sequence.
\<close>

definition apiStructural :: schema where
  "apiStructural =
     Schema None
       [(''replicas'', Schema (Some (JInt 1)) [] None),
        (''port'', Schema (Some (JInt 80)) [] None),
        (''cpu'', Schema (Some (JStr ''100m'')) [] None),
        (''resources'', Schema None [(''memory'', Schema (Some (JStr ''64Mi'')) [] None)] None),
        (''mounts'', Schema None []
           (Some (Schema None [(''readOnly'', Schema (Some (JBool False)) [] None)] None)))]
       None"

definition apiSchema :: "jmap list \<Rightarrow> error + schema" where
  "apiSchema schemas = Inr apiStructural"

definition apiDeclared :: jmap where
  "apiDeclared =
     [(''replicas'', JInt 2), (''port'', JInt 8080), (''image'', JStr ''api:v1''),
      (''resources'', JObj [(''limit'', JStr ''1'')]),
      (''tags'', JArr [JStr ''a'', JStr ''b'']),
      (''mounts'', JArr [JObj [(''path'', JStr ''/tmp'')], JObj [(''path'', JStr ''/var'')]])]"

definition apiOverrides :: jmap where
  "apiOverrides =
     [(''replicas'', JInt 5), (''resources'', JObj [(''cpu'', JStr ''2'')]),
      (''tags'', JArr [JStr ''c'']),
      (''mounts'', JArr [JObj [(''path'', JStr ''/data'')]])]"

definition apiInput :: ComponentContextInput where
  "apiInput =
     \<lparr>Component = Some
        \<lparr>Name = ''api'', Namespace = ''shop'',
         Parameters = Some (RawJSON (Inr apiDeclared))\<rparr>,
      ComponentTypeDefinition = Some \<lparr>SchemaParameters = None, SchemaEnvOverrides = None\<rparr>,
      EnvSettings = Some
        \<lparr>Overrides = Some (RawJSON (Inr apiOverrides)),
         AddonOverrides = None\<rparr>,
      Workload = None,
      Environment = ''prod'',
      AdditionalMetadata = []\<rparr>"

text \<open>An addon context input: an instance of an addon with per-instance overrides.\<close>

definition cacheAddon :: Addon where
  "cacheAddon = \<lparr>AddonName = ''cache'', AddonSchemaParameters = None, AddonSchemaEnvOverrides = None\<rparr>"

definition cacheInput :: AddonContextInput where
  "cacheInput =
     \<lparr>AddonDef = Some cacheAddon,
      Instance = \<lparr>InstanceID = ''c1'', Config = Some (RawJSON (Inr apiDeclared))\<rparr>,
      AddonComponent = Some \<lparr>Name = ''web'', Namespace = ''shop'', Parameters = None\<rparr>,
      AddonEnvSettings = Some
        \<lparr>Overrides = None,
         AddonOverrides = Some [(''cache'', [(''c1'', RawJSON (Inr apiOverrides))])]\<rparr>,
      AddonEnvironment = ''prod'',
      AddonAdditionalMetadata = []\<rparr>"

text \<open>
  The \<open>%v\<close> rendering of strings, booleans and integers, as a stand-in for
  \<open>fmt.Sprintf\<close> in the examples. Integers are rendered as Go renders an \<open>int\<close>; a
  number decoded as \<open>float64\<close> is rendered by Go in exponent form from 1000000 on,
  which this stand-in does not reproduce. Mappings, sequences and nil are rendered as
  the empty text here, unlike in Go; the examples filter on strings and small integers
  only.
\<close>

definition sprintScalar :: "jv \<Rightarrow> string" where
  "sprintScalar v =
     (case v of
        JStr s \<Rightarrow> s
      | JBool b \<Rightarrow> (if b then ''true'' else ''false'')
      | JInt i \<Rightarrow> Itoa i
      | _ \<Rightarrow> [])"

text \<open>A container list entry, as found under \<open>spec.template.spec.containers\<close>.\<close>

definition appContainer :: jv where
  "appContainer =
     JObj [(''name'', JStr ''app''), (''role'', JNull), (''port'', JInt 8080),
           (''resources'', JObj [(''cpu'', JStr ''1'')])]"

text \<open>A rendered Deployment with one container, and a pass-through JSON-Patch stand-in.\<close>

definition deployment :: jmap where
  "deployment =
     [(''kind'', JStr ''Deployment''),
      (''metadata'', JObj [(''name'', JStr ''web'')]),
      (''spec'', JObj [(''containers'', JArr [appContainer])])]"

definition keepDocument :: jsonpatch where
  "keepDocument op pointer val doc = Inr doc"

text \<open>
  A render function for examples: the text \<open>unknown.field\<close> fails as missing data, the
  text \<open>items\<close> evaluates to the context entry of that name, anything else to itself.
\<close>

definition exampleRender :: RenderFunc where
  "exampleRender v inputs =
     (if v = JStr ''unknown.field'' then Inl (Error ''no such key'')
      else if v = JStr ''items'' then (case inputs ''items'' of
                                          Some x \<Rightarrow> Inr x
                                        | None \<Rightarrow> Inl (Error ''no such key''))
      else Inr v)"

definition exampleContext :: ctx where
  "exampleContext =
     [''items'' \<mapsto> JArr [JInt 1, JInt 2], ''item'' \<mapsto> JStr ''outer'', ''resource'' \<mapsto> JStr ''previous'']"

text \<open>A spec that iterates over \<open>items\<close> and whose \<open>where\<close> expression reads an unknown field.\<close>

definition exampleSpec :: PatchSpec where
  "exampleSpec =
     \<lparr>ForEach = ''items'', Var = [],
      Target = \<lparr>Kind = ''Deployment'', Group = [], Version = [], TargetName = [],
                Where = ''unknown.field''\<rparr>,
      Operations = [\<lparr>Op = ''add'', Path = ''/metadata/labels/app'', Value = JStr ''web''\<rparr>]\<rparr>"

text \<open>The document and the overlay of the example in the comment of \<open>applyMergeShallow\<close>.\<close>

definition nestedDocument :: jmap where
  "nestedDocument = [(''a'', JObj [(''x'', JInt 1), (''y'', JInt 2)]), (''b'', JInt 3)]"

definition nestedOverlay :: jmap where
  "nestedOverlay = [(''a'', JObj [(''z'', JInt 3)])]"


section \<open>Properties of deep merge\<close>

lemma deepCopyValue_id: "deepCopyValue v = v"
  by (induction v) (auto intro!: map_idI)

lemma deepCopy_entries_id: "map (\<lambda>(k, v). (k, deepCopyValue v)) m = m"
  by (simp add: deepCopyValue_id)

lemma deepMergeLoop_step:
  "deepMergeLoop result ((k, v) # rest) =
     deepMergeLoop
       (AList.update k
          (case (map_of result k, v) of
             (Some (JObj existingMap), JObj overrideMap) \<Rightarrow> JObj (deepMerge existingMap overrideMap)
           | _ \<Rightarrow> v)
          result)
       rest"
  by (auto simp: deepMerge_def deepCopyValue_id split: option.splits jv.splits)

lemma deepMerge_loop: "deepMerge base override = deepMergeLoop base override"
  by (simp add: deepMerge_def deepCopy_entries_id)

lemma map_of_deepMergeLoop:
  "distinct (map fst ov) \<Longrightarrow>
   map_of (deepMergeLoop result ov) k =
     (case map_of ov k of
        None \<Rightarrow> map_of result k
      | Some v \<Rightarrow>
          Some (case (map_of result k, v) of
                  (Some (JObj existingMap), JObj overrideMap) \<Rightarrow> JObj (deepMerge existingMap overrideMap)
                | _ \<Rightarrow> v))"
proof (induction ov arbitrary: result)
  case Nil
  then show ?case by simp
next
  case (Cons p ov)
  obtain k' v' where p: "p = (k', v')" by (cases p)
  from Cons.prems p have d: "distinct (map fst ov)" and nin: "k' \<notin> fst ` set ov" by auto
  from nin have none: "map_of ov k' = None" by (simp add: map_of_eq_None_iff)
  show ?case
    unfolding p deepMergeLoop_step
    by (simp add: Cons.IH [OF d] update_conv' none split: option.splits)
qed

lemma map_of_deepMerge:
  "distinct (map fst ov) \<Longrightarrow>
   map_of (deepMerge base ov) k =
     (case map_of ov k of
        None \<Rightarrow> map_of base k
      | Some v \<Rightarrow>
          Some (case (map_of base k, v) of
                  (Some (JObj existingMap), JObj overrideMap) \<Rightarrow> JObj (deepMerge existingMap overrideMap)
                | _ \<Rightarrow> v))"
  by (simp add: deepMerge_loop map_of_deepMergeLoop)

lemma update_fresh: "k \<notin> fst ` set al \<Longrightarrow> AList.update k v al = al @ [(k, v)]"
  by (induction al) auto

lemma deepMergeLoop_disjoint:
  "distinct (map fst ov) \<Longrightarrow> fst ` set result \<inter> fst ` set ov = {} \<Longrightarrow>
   deepMergeLoop result ov = result @ ov"
proof (induction ov arbitrary: result)
  case Nil
  then show ?case by simp
next
  case (Cons p ov)
  obtain k' v' where p: "p = (k', v')" by (cases p)
  from Cons.prems p have d: "distinct (map fst ov)" and nin: "k' \<notin> fst ` set ov"
    and nin2: "k' \<notin> fst ` set result" and dj: "fst ` set result \<inter> fst ` set ov = {}" by auto
  from nin2 have none: "map_of result k' = None" by (simp add: map_of_eq_None_iff)
  have dj': "fst ` set (result @ [(k', v')]) \<inter> fst ` set ov = {}" using dj nin by auto
  show ?case
    unfolding p deepMergeLoop_step
    by (simp add: none update_fresh [OF nin2] Cons.IH [OF d dj'])
qed

lemma deepMerge_disjoint:
  "distinct (map fst ov) \<Longrightarrow> fst ` set base \<inter> fst ` set ov = {} \<Longrightarrow> deepMerge base ov = base @ ov"
  by (simp add: deepMerge_loop deepMergeLoop_disjoint)

text \<open>
  C7. \<open>deepMerge\<close> is right-biased: at a key of the override, the result holds the
  override's value, except that two mappings are merged recursively (sequences and
  scalars are replaced); keys the override does not have keep the base's value. And
  \<open>deepMerge\<close> is associative on maps with pairwise disjoint key sets.
\<close>

theorem deepMerge_right_biased_associative:
  "(distinct (map fst override) \<longrightarrow>
      map_of (deepMerge base override) k =
        (case map_of override k of
           None \<Rightarrow> map_of base k
         | Some v \<Rightarrow>
             Some (case (map_of base k, v) of
                     (Some (JObj existingMap), JObj overrideMap) \<Rightarrow>
                        JObj (deepMerge existingMap overrideMap)
                   | _ \<Rightarrow> v)))
   \<and> (distinct (map fst b) \<and> distinct (map fst c)
        \<and> fst ` set a \<inter> fst ` set b = {}
        \<and> fst ` set a \<inter> fst ` set c = {}
        \<and> fst ` set b \<inter> fst ` set c = {} \<longrightarrow>
      deepMerge (deepMerge a b) c = deepMerge a (deepMerge b c))"
proof (intro conjI impI)
  assume "distinct (map fst override)"
  then show "map_of (deepMerge base override) k =
        (case map_of override k of
           None \<Rightarrow> map_of base k
         | Some v \<Rightarrow>
             Some (case (map_of base k, v) of
                     (Some (JObj existingMap), JObj overrideMap) \<Rightarrow>
                        JObj (deepMerge existingMap overrideMap)
                   | _ \<Rightarrow> v))"
    by (rule map_of_deepMerge)
next
  assume h: "distinct (map fst b) \<and> distinct (map fst c)
        \<and> fst ` set a \<inter> fst ` set b = {}
        \<and> fst ` set a \<inter> fst ` set c = {}
        \<and> fst ` set b \<inter> fst ` set c = {}"
  then have ab: "deepMerge a b = a @ b" by (simp add: deepMerge_disjoint)
  from h have bc: "deepMerge b c = b @ c" by (simp add: deepMerge_disjoint)
  from h have "fst ` set (a @ b) \<inter> fst ` set c = {}" by auto
  with h have abc: "deepMerge (a @ b) c = (a @ b) @ c" by (simp add: deepMerge_disjoint)
  from h have "distinct (map fst (b @ c))" by auto
  moreover from h have "fst ` set a \<inter> fst ` set (b @ c) = {}" by auto
  ultimately have "deepMerge a (b @ c) = a @ (b @ c)" by (rule deepMerge_disjoint)
  with ab bc abc show "deepMerge (deepMerge a b) c = deepMerge a (deepMerge b c)" by simp
qed

theorem deepMerge_right_biased_associative_witness:
  "map_of (deepMerge [(''replicas'', JInt 1), (''resources'', JObj [(''cpu'', JStr ''1''), (''memory'', JStr ''2'')]),
                      (''tags'', JArr [JStr ''a'', JStr ''b''])]
                     [(''replicas'', JInt 5), (''resources'', JObj [(''cpu'', JStr ''9'')]), (''tags'', JArr [JStr ''c''])])
          ''tags'' = Some (JArr [JStr ''c''])
   \<and> deepMerge (deepMerge [(''a'', JInt 1)] [(''b'', JObj [(''x'', JInt 2)])]) [(''c'', JArr [])]
       = deepMerge [(''a'', JInt 1)] (deepMerge [(''b'', JObj [(''x'', JInt 2)])] [(''c'', JArr [])])"
  using deepMerge_right_biased_associative
          [of "[(''replicas'', JInt 5), (''resources'', JObj [(''cpu'', JStr ''9'')]), (''tags'', JArr [JStr ''c''])]"
              "[(''replicas'', JInt 1), (''resources'', JObj [(''cpu'', JStr ''1''), (''memory'', JStr ''2'')]),
                (''tags'', JArr [JStr ''a'', JStr ''b''])]"
              "''tags''"
              "[(''b'', JObj [(''x'', JInt 2)])]" "[(''c'', JArr [])]" "[(''a'', JInt 1)]"]
  by simp


section \<open>Properties of the hash function\<close>

lemma below_16:
  "d < 16 \<Longrightarrow> d \<in> {0, 1, 2, 3, 4, 5, 6, 7, 8, 9, 10, 11, 12, 13, 14, 15 :: nat}"
  by (simp add: eval_nat_numeral less_Suc_eq) 

lemma hexdigit_in: "d < 16 \<Longrightarrow> hexdigit d \<in> set ''0123456789abcdef''"
  by (drule below_16) (auto simp: hexdigit_def)

lemma hexval_hexdigit: "d < 16 \<Longrightarrow> hexval (hexdigit d) = d"
  by (drule below_16) (auto simp: hexdigit_def hexval_def)

lemma hexdigits_set: "set (hexdigits n) \<subseteq> set ''0123456789abcdef''"
proof (induction n rule: hexdigits.induct)
  case (1 n)
  show ?case
  proof (cases "n < 16")
    case True
    then show ?thesis using hexdigit_in [of n] by (subst hexdigits.simps) simp
  next
    case False
    have "n mod 16 < 16" by simp
    then have "hexdigit (n mod 16) \<in> set ''0123456789abcdef''" by (rule hexdigit_in)
    with False 1 show ?thesis by (subst hexdigits.simps) simp
  qed
qed

lemma hex_to_nat_snoc: "hex_to_nat (s @ [c]) = 16 * hex_to_nat s + hexval c"
  by (simp add: hex_to_nat_def)

lemma hex_to_nat_hexdigits: "hex_to_nat (hexdigits n) = n"
proof (induction n rule: hexdigits.induct)
  case (1 n)
  show ?case
  proof (cases "n < 16")
    case True
    then show ?thesis
      by (subst hexdigits.simps) (simp add: hex_to_nat_def hexval_hexdigit)
  next
    case False
    with 1 have "hex_to_nat (hexdigits (n div 16)) = n div 16" by simp
    with False show ?thesis
      by (subst hexdigits.simps) (simp add: hex_to_nat_snoc hexval_hexdigit)
  qed
qed

lemma hexdigits_length: "n < 16 ^ k \<Longrightarrow> 0 < k \<Longrightarrow> length (hexdigits n) \<le> k"
proof (induction n arbitrary: k rule: hexdigits.induct)
  case (1 n)
  show ?case
  proof (cases "n < 16")
    case True
    with "1.prems" show ?thesis by (subst hexdigits.simps) simp
  next
    case False
    from False "1.prems" have "k \<noteq> 1" by auto
    with "1.prems" have "1 < k" by simp
    then obtain j where k: "k = Suc j" and j: "0 < j" by (cases k) auto
    from "1.prems" k have "n div 16 < 16 ^ j"
      by (simp add: less_mult_imp_div_less mult.commute)
    with "1.IH" False j have "length (hexdigits (n div 16)) \<le> j" by simp
    with False k show ?thesis by (subst hexdigits.simps) simp
  qed
qed

lemma hex_to_nat_zeros: "hex_to_nat (replicate m (CHR ''0'') @ s) = hex_to_nat s"
proof -
  have "foldl (\<lambda>acc c. 16 * acc + hexval c) 0 (replicate m (CHR ''0'')) = 0"
    by (induction m) (simp_all add: hexval_def Let_def)
  then show ?thesis by (simp add: hex_to_nat_def)
qed

lemma sprintf_08x_props:
  "length (sprintf_08x h) = 8 \<and> set (sprintf_08x h) \<subseteq> set ''0123456789abcdef''
   \<and> hex_to_nat (sprintf_08x h) = unat h"
proof -
  have "unat h < 2 ^ 32" using unsigned_less [of h] by simp
  then have "unat h < 16 ^ 8" by simp
  then have len: "length (hexdigits (unat h)) \<le> 8" by (rule hexdigits_length) simp
  have "set (replicate (8 - length (hexdigits (unat h))) (CHR ''0'')) \<subseteq> set ''0123456789abcdef''"
    by (auto simp: set_replicate_conv_if)
  with len hexdigits_set [of "unat h"] show ?thesis
    by (simp add: sprintf_08x_def Let_def hex_to_nat_zeros hex_to_nat_hexdigits)
qed

text \<open>
  C9. For every string, \<open>oc_hash\<close> returns exactly eight characters, all lower-case
  hexadecimal digits, which read as a hexadecimal numeral are the 32-bit FNV-1a digest
  of the string; \<open>generateHashString\<close> returns the same string. Being a function of
  its input, the result is the same at every evaluation.
\<close>

theorem oc_hash_fnv32a_hex:
  "length (oc_hash s) = 8
   \<and> set (oc_hash s) \<subseteq> set ''0123456789abcdef''
   \<and> hex_to_nat (oc_hash s) = unat (fnv32a_sum32 s)
   \<and> generateHashString s = oc_hash s"
  using sprintf_08x_props [of "fnv32a_sum32 s"]
  by (simp add: oc_hash_def generateHashString_def)

theorem oc_hash_fnv32a_hex_witness:
  "oc_hash ''test'' = ''afd071e5'' \<and> length (oc_hash ''test'') = 8
   \<and> hex_to_nat (oc_hash ''test'') = unat (fnv32a_sum32 ''test'')"
proof -
  have "oc_hash ''test'' = ''afd071e5''"
    by (simp add: oc_hash_def sprintf_08x_def fnv32a_sum32_def offset32_def prime32_def
          hexdigits.simps hexdigit_def)
  with oc_hash_fnv32a_hex [of "''test''"] show ?thesis by simp
qed


section \<open>Keys of a component context\<close>

lemma componentContextTail_dom:
  "dom (componentContextTail inp component ctx0) =
     dom ctx0 \<union> {''component''}
     \<union> (if Workload inp \<noteq> None then {''workload''} else {})
     \<union> (if Environment inp \<noteq> [] then {''environment''} else {})
     \<union> (if AdditionalMetadata inp \<noteq> [] then {''metadata''} else {})"
  by (auto simp: componentContextTail_def Let_def split: option.splits if_splits)

lemma BuildComponentContext_Inr:
  assumes "BuildComponentContext toStructural (Some inp) = Inr ctx"
  obtains component params where
    "Component inp = Some component"
    "ctx = componentContextTail inp component (Map.empty(''parameters'' \<mapsto> params))"
  using assms
  by (auto simp: BuildComponentContext_def split: option.splits sum.splits)

theorem BuildComponentContext_keys_counterexample:
  "map_sum id dom (BuildComponentContext emptySchema (Some bareInput))
     = Inr {''parameters'', ''component''}"
  by (auto simp: BuildComponentContext_def bareInput_def emptySchema_def buildStructuralSchema_def
        extractParameters_def componentContextTail_def componentMeta_def Let_def)

text \<open>
  C8 (amended). A successful \<open>BuildComponentContext\<close> returns a context whose keys are
  \<open>parameters\<close> and \<open>component\<close>, together with \<open>workload\<close> exactly when a workload is
  given, \<open>environment\<close> exactly when the environment name is not empty, and \<open>metadata\<close>
  exactly when the additional metadata is not empty.
\<close>

theorem BuildComponentContext_keys:
  "BuildComponentContext toStructural (Some inp) = Inr ctx \<Longrightarrow>
   dom ctx =
     {''parameters'', ''component''}
     \<union> (if Workload inp \<noteq> None then {''workload''} else {})
     \<union> (if Environment inp \<noteq> [] then {''environment''} else {})
     \<union> (if AdditionalMetadata inp \<noteq> [] then {''metadata''} else {})"
  by (erule BuildComponentContext_Inr) (simp add: componentContextTail_dom insert_commute)

theorem BuildComponentContext_keys_witness:
  "map_sum id dom (BuildComponentContext webSchema (Some webInput))
     = Inr {''parameters'', ''workload'', ''component'', ''environment'', ''metadata''}"
proof -
  have "\<exists>ctx. BuildComponentContext webSchema (Some webInput) = Inr ctx"
    by (simp add: BuildComponentContext_def webInput_def webSchema_def buildStructuralSchema_def
          extractParameters_def)
  then obtain ctx where ctx: "BuildComponentContext webSchema (Some webInput) = Inr ctx" ..
  from BuildComponentContext_keys [OF ctx]
  have "dom ctx = {''parameters'', ''workload'', ''component'', ''environment'', ''metadata''}"
    by (auto simp: webInput_def)
  with ctx show ?thesis by simp
qed


section \<open>Parameter precedence\<close>

lemma lookupPath_nonempty_obj:
  "lookupPath c ks = Some v \<Longrightarrow> ks \<noteq> [] \<Longrightarrow> \<exists>m. c = JObj m"
  by (cases c; cases ks) auto

lemma distinctKeys_child:
  "distinctKeys (JObj m) \<Longrightarrow> map_of m k = Some c \<Longrightarrow> distinctKeys c"
  by (auto simp: list_all_iff dest!: map_of_SomeD)

lemma lookupPath_append:
  "lookupPath v (ps @ qs) = (case lookupPath v ps of None \<Rightarrow> None | Some c \<Rightarrow> lookupPath c qs)"
proof (induction ps arbitrary: v)
  case Nil
  show ?case by simp
next
  case (Cons k ks)
  then show ?case by (cases v) (auto split: option.splits)
qed

lemma defaulted_None [simp]: "defaulted None v = v"
  by (simp add: defaulted_def)

lemma defaulted_Some [simp]: "defaulted (Some s) v = ApplyDefaults v s"
  by (simp add: defaulted_def)

lemma laidOver_mappings [simp]: "laidOver (Some (JObj em)) (JObj om) = JObj (deepMerge em om)"
  by (simp add: laidOver_def)

lemma laidOver_not_mapping [simp]: "\<not> isMapping v \<Longrightarrow> laidOver e v = v"
  by (cases v) (auto simp: laidOver_def split: option.splits jv.splits)

lemma laidOver_None [simp]: "laidOver None v = v"
  by (simp add: laidOver_def)

lemma laidOver_over_other [simp]: "\<not> isMapping b \<Longrightarrow> laidOver (Some b) v = v"
  by (cases b) (auto simp: laidOver_def split: jv.splits)

text \<open>An override's value at a key path, laid over the base's, is the merged value.\<close>

lemma deepMerge_override_wins:
  "distinctKeys (JObj ov) \<Longrightarrow> lookupPath (JObj ov) p = Some v \<Longrightarrow>
   lookupPath (JObj (deepMerge base ov)) p = Some (laidOver (lookupPath (JObj base) p) v)"
proof (induction p arbitrary: base ov)
  case Nil
  then show ?case by auto
next
  case (Cons k ks)
  from Cons.prems(2) obtain c where c: "map_of ov k = Some c" and rest: "lookupPath c ks = Some v"
    by (auto split: option.splits)
  from Cons.prems(1) have d: "distinct (map fst ov)" by simp
  from Cons.prems(1) c have dc: "distinctKeys c" by (rule distinctKeys_child)
  show ?case
  proof (cases "isMapping c \<and> (\<exists>em. map_of base k = Some (JObj em))")
    case True
    then obtain om em where om: "c = JObj om" and em: "map_of base k = Some (JObj em)"
      by (cases c) auto
    from dc om rest
    have "lookupPath (JObj (deepMerge em om)) ks = Some (laidOver (lookupPath (JObj em) ks) v)"
      by (intro Cons.IH) auto
    with c om em d show ?thesis by (simp add: map_of_deepMerge)
  next
    case False
    with c d have m: "map_of (deepMerge base ov) k = Some c"
      by (cases c) (auto simp: map_of_deepMerge split: option.splits jv.splits)
    have "laidOver (lookupPath (JObj base) (k # ks)) v = v"
    proof (cases "isMapping c")
      case True
      with False have nb: "\<forall>em. map_of base k \<noteq> Some (JObj em)" by simp
      show ?thesis
      proof (cases "map_of base k")
        case None
        then show ?thesis by simp
      next
        case (Some b)
        with nb have b: "\<not> isMapping b" by (cases b) auto
        show ?thesis
        proof (cases ks)
          case Nil
          with Some b show ?thesis by simp
        next
          case (Cons k' ks')
          with b have "lookupPath b ks = None" by (cases b) auto
          with Some show ?thesis by simp
        qed
      qed
    next
      case False
      with rest have "ks = []" by (cases c; cases ks) auto
      with rest False show ?thesis by simp
    qed
    with m rest show ?thesis by simp
  qed
qed

text \<open>A value of the base at a key path the override leaves untouched is the merged value.\<close>

lemma deepMerge_base_kept:
  "distinctKeys (JObj ov) \<Longrightarrow> untouched ov p \<Longrightarrow> lookupPath (JObj base) p = Some v \<Longrightarrow>
   lookupPath (JObj (deepMerge base ov)) p = Some v"
proof (induction p arbitrary: base ov)
  case Nil
  then show ?case by simp
next
  case (Cons k ks)
  from Cons.prems(3) obtain c where c: "map_of base k = Some c" and rest: "lookupPath c ks = Some v"
    by (auto split: option.splits)
  from Cons.prems(1) have d: "distinct (map fst ov)" by simp
  show ?case
  proof (cases "map_of ov k")
    case None
    with c d have "map_of (deepMerge base ov) k = Some c" by (simp add: map_of_deepMerge)
    with rest show ?thesis by simp
  next
    case (Some oc)
    with Cons.prems(2) obtain om where om: "oc = JObj om" and ks: "ks \<noteq> []" and u: "untouched om ks"
      by (cases oc) auto
    from rest ks obtain em where em: "c = JObj em" by (auto dest: lookupPath_nonempty_obj)
    from Cons.prems(1) Some have "distinctKeys oc" by (rule distinctKeys_child)
    with om have "distinctKeys (JObj om)" by simp
    from Cons.IH [OF this u, of em] rest em
    have "lookupPath (JObj (deepMerge em om)) ks = Some v" by simp
    with Some om c em d show ?thesis by (simp add: map_of_deepMerge)
  qed
qed

lemma map_of_fillDefaults_present:
  "map_of m k = Some c \<Longrightarrow> map_of (fillDefaults props m) k = Some c"
proof (induction props arbitrary: m)
  case Nil
  then show ?case by simp
next
  case (Cons p props)
  obtain k' ps where p: "p = (k', ps)" by (cases p)
  show ?case
    unfolding p fillDefaults.simps
    by (rule Cons.IH) (use Cons.prems in \<open>auto simp: update_conv' split: option.splits\<close>)
qed

lemma map_of_fillDefaults_absent:
  "map_of m k = None \<Longrightarrow> map_of props k = Some ps \<Longrightarrow> sdefault ps = Some d \<Longrightarrow>
   map_of (fillDefaults props m) k = Some d"
proof (induction props arbitrary: m)
  case Nil
  then show ?case by simp
next
  case (Cons p props)
  obtain k' ps' where p: "p = (k', ps')" by (cases p)
  show ?case
  proof (cases "k' = k")
    case True
    with Cons.prems p have "ps' = ps" by simp
    with True Cons.prems show ?thesis
      unfolding p fillDefaults.simps
      by (intro map_of_fillDefaults_present) (simp add: update_conv' deepCopyValue_id)
  next
    case False
    with Cons.prems p have "map_of props k = Some ps" by simp
    moreover from False Cons.prems
    have "map_of (case (map_of m k', sdefault ps') of
                    (None, Some d) \<Rightarrow> AList.update k' (deepCopyValue d) m
                  | _ \<Rightarrow> m) k = None"
      by (auto simp: update_conv' split: option.splits)
    ultimately show ?thesis
      unfolding p fillDefaults.simps using Cons.prems(3) by (intro Cons.IH)
  qed
qed

lemma map_of_fillDefaults_none:
  "map_of m k = None \<Longrightarrow> distinct (map fst props) \<Longrightarrow>
   (\<forall>ps. map_of props k = Some ps \<longrightarrow> sdefault ps = None) \<Longrightarrow>
   map_of (fillDefaults props m) k = None"
proof (induction props arbitrary: m)
  case Nil
  then show ?case by simp
next
  case (Cons p props)
  obtain k' ps' where p: "p = (k', ps')" by (cases p)
  from Cons.prems(2) p have d: "distinct (map fst props)" and fresh: "k' \<notin> fst ` set props"
    by auto
  have rest: "\<forall>ps. map_of props k = Some ps \<longrightarrow> sdefault ps = None"
  proof (cases "k' = k")
    case True
    with fresh have "map_of props k = None" by (simp add: map_of_eq_None_iff)
    then show ?thesis by simp
  next
    case False
    with Cons.prems(3) p show ?thesis by simp
  qed
  have "map_of (case (map_of m k', sdefault ps') of
                  (None, Some d) \<Rightarrow> AList.update k' (deepCopyValue d) m
                | _ \<Rightarrow> m) k = None"
    using Cons.prems(1,3) p by (auto simp: update_conv' split: option.splits)
  then show ?case
    unfolding p fillDefaults.simps using d rest by (rule Cons.IH)
qed

lemma map_of_map_entries:
  "map_of (map (\<lambda>(k, v). (k, f k v)) m) k = map_option (f k) (map_of m k)"
  by (induction m) auto

text \<open>Defaulting keeps every value that is present, applying the defaults inside it.\<close>

lemma ApplyDefaults_at:
  "lookupPath x p = Some v \<Longrightarrow>
   lookupPath (ApplyDefaults x s) p = Some (defaulted (schemaAt s p) v)"
proof (induction p arbitrary: x s)
  case Nil
  then show ?case by simp
next
  case (Cons k ks)
  from Cons.prems(1) obtain m c where x: "x = JObj m" and c: "map_of m k = Some c"
    and rest: "lookupPath c ks = Some v"
    by (cases x) (auto split: option.splits)
  obtain d props items where s: "s = Schema d props items" by (cases s)
  from c have "map_of (fillDefaults props m) k = Some c" by (rule map_of_fillDefaults_present)
  then show ?case
    using Cons.IH [OF rest] rest
    by (simp add: x s map_of_map_entries split: option.splits)
qed

text \<open>A declared default fills a key that is absent.\<close>

lemma ApplyDefaults_fills:
  "map_of m k = None \<Longrightarrow> map_of (sproperties s) k = Some ps \<Longrightarrow> sdefault ps = Some d \<Longrightarrow>
   lookupPath (ApplyDefaults (JObj m) s) [k] = Some (ApplyDefaults d ps)"
proof -
  assume a: "map_of m k = None" "map_of (sproperties s) k = Some ps" "sdefault ps = Some d"
  obtain d0 props items where s: "s = Schema d0 props items" by (cases s)
  from a s have "map_of (fillDefaults props m) k = Some d"
    by (intro map_of_fillDefaults_absent) auto
  with a s show ?thesis
    by (simp add: map_of_map_entries)
qed

lemma ApplyDefaults_fills_at:
  assumes "lookupPath x q = Some (JObj m)" and "map_of m k = None"
    and "schemaAt s q = Some sq" and "map_of (sproperties sq) k = Some ps"
    and "sdefault ps = Some d"
  shows "lookupPath (ApplyDefaults x s) (q @ [k]) = Some (ApplyDefaults d ps)"
proof -
  from assms(1) have "lookupPath (ApplyDefaults x s) q = Some (defaulted (schemaAt s q) (JObj m))"
    by (rule ApplyDefaults_at)
  with assms(3) have "lookupPath (ApplyDefaults x s) q = Some (ApplyDefaults (JObj m) sq)"
    by simp
  moreover from assms(2,4,5)
  have "lookupPath (ApplyDefaults (JObj m) sq) [k] = Some (ApplyDefaults d ps)"
    by (rule ApplyDefaults_fills)
  ultimately show ?thesis
    by (simp only: lookupPath_append option.case)
qed

text \<open>The top-level keys of the defaulted merge, exactly.\<close>

lemma ApplyDefaults_deepMerge_top:
  assumes "distinct (map fst overrides)" and "distinct (map fst (sproperties structural))"
  shows "lookupPath (ApplyDefaults (JObj (deepMerge declared overrides)) structural) [k]
           = parameterAt overrides declared structural k"
proof -
  obtain d0 props items where s: "structural = Schema d0 props items" by (cases structural)
  let ?m = "deepMerge declared overrides"
  show ?thesis
  proof (cases "map_of ?m k")
    case None
    with assms(1) have o: "map_of overrides k = None" and dn: "map_of declared k = None"
      by (auto simp: map_of_deepMerge split: option.splits)
    show ?thesis
    proof (cases "\<exists>ps d. map_of props k = Some ps \<and> sdefault ps = Some d")
      case True
      then obtain ps d where ps: "map_of props k = Some ps" and d: "sdefault ps = Some d" by auto
      from None ps d
      have "lookupPath (ApplyDefaults (JObj ?m) structural) [k] = Some (ApplyDefaults d ps)"
        by (intro ApplyDefaults_fills) (simp_all add: s)
      with o dn ps d show ?thesis by (simp add: parameterAt_def s)
    next
      case False
      with None assms(2) have "map_of (fillDefaults props ?m) k = None"
        by (intro map_of_fillDefaults_none) (auto simp: s)
      with o dn False show ?thesis
        by (auto simp: parameterAt_def s map_of_map_entries split: option.splits)
    qed
  next
    case (Some c)
    then have "map_of (fillDefaults props ?m) k = Some c" by (rule map_of_fillDefaults_present)
    then have l: "lookupPath (ApplyDefaults (JObj ?m) structural) [k]
                    = Some (defaulted (map_of props k) c)"
      by (simp add: s map_of_map_entries split: option.splits)
    from assms(1) have "map_of ?m k =
        (case map_of overrides k of
           None \<Rightarrow> map_of declared k
         | Some v \<Rightarrow> Some (laidOver (map_of declared k) v))"
      by (simp add: map_of_deepMerge laidOver_def split: option.splits)
    with Some show ?thesis
      unfolding l
      by (cases "map_of overrides k"; cases "map_of declared k") (simp_all add: parameterAt_def s)
  qed
qed


lemma deepMerge_Nil: "deepMerge base [] = base"
  by (simp add: deepMerge_loop)

lemma precedence_of_pipeline:
  assumes "distinctKeys (JObj overrides)" and "distinct (map fst (sproperties structural))"
  shows "precedence overrides declared structural
           (ApplyDefaults (JObj (deepMerge declared overrides)) structural)"
  unfolding precedence_def
proof (intro conjI allI impI)
  fix p v
  assume "p \<noteq> [] \<and> lookupPath (JObj overrides) p = Some v"
  then have l: "lookupPath (JObj overrides) p = Some v" by simp
  with assms(1) have "lookupPath (JObj (deepMerge declared overrides)) p
                        = Some (laidOver (lookupPath (JObj declared) p) v)"
    by (rule deepMerge_override_wins)
  then show "lookupPath (ApplyDefaults (JObj (deepMerge declared overrides)) structural) p
               = Some (defaulted (schemaAt structural p) (laidOver (lookupPath (JObj declared) p) v))"
    by (rule ApplyDefaults_at)
next
  fix p v
  assume "lookupPath (JObj declared) p = Some v \<and> untouched overrides p"
  then have l: "lookupPath (JObj declared) p = Some v" and u: "untouched overrides p"
    by auto
  from assms(1) u l have "lookupPath (JObj (deepMerge declared overrides)) p = Some v"
    by (rule deepMerge_base_kept)
  then show "lookupPath (ApplyDefaults (JObj (deepMerge declared overrides)) structural) p
               = Some (defaulted (schemaAt structural p) v)"
    by (rule ApplyDefaults_at)
next
  fix q m k sq ps d
  assume a: "lookupPath (JObj (deepMerge declared overrides)) q = Some (JObj m) \<and> map_of m k = None
             \<and> schemaAt structural q = Some sq \<and> map_of (sproperties sq) k = Some ps
             \<and> sdefault ps = Some d"
  then show "lookupPath (ApplyDefaults (JObj (deepMerge declared overrides)) structural) (q @ [k])
               = Some (ApplyDefaults d ps)"
    by (intro ApplyDefaults_fills_at [where m = m and sq = sq]) simp_all
next
  fix k
  from assms(1) have "distinct (map fst overrides)" by simp
  then show "lookupPath (ApplyDefaults (JObj (deepMerge declared overrides)) structural) [k]
               = parameterAt overrides declared structural k"
    using assms(2) by (rule ApplyDefaults_deepMerge_top)
qed

lemma BuildComponentContext_parameters:
  assumes "BuildComponentContext toStructural (Some inp) = Inr ctx"
    and "Component inp = Some component"
    and "ComponentTypeDefinition inp = Some ctd"
    and "buildStructuralSchema toStructural
           \<lparr>ParametersSchema = SchemaParameters ctd, EnvOverridesSchema = SchemaEnvOverrides ctd,
            Structural = None\<rparr> = Inr structural"
    and "extractParameters (Parameters component) = Inr declared"
    and "extractParameters (componentOverrides inp) = Inr overrides"
  shows "ctx ''parameters'' = Some (ApplyDefaults (JObj (deepMerge declared overrides)) structural)"
proof -
  have tail: "componentContextTail inp component c ''parameters'' = c ''parameters''" for c
    by (simp add: componentContextTail_def Let_def split: option.splits)
  from assms show ?thesis
    by (auto simp: BuildComponentContext_def componentOverrides_def tail deepMerge_Nil
          extractParameters_def
        split: option.splits sum.splits RawExtension.splits)
qed

lemma BuildAddonContext_parameters:
  assumes "BuildAddonContext toStructural (Some inp) = Inr ctx"
    and "AddonDef inp = Some addon"
    and "buildStructuralSchema toStructural
           \<lparr>ParametersSchema = AddonSchemaParameters addon,
            EnvOverridesSchema = AddonSchemaEnvOverrides addon,
            Structural = None\<rparr> = Inr structural"
    and "extractParameters (Config (Instance inp)) = Inr declared"
    and "extractParametersFromRawExtension (addonInstanceOverrides inp addon) = Inr overrides"
  shows "ctx ''parameters'' = Some (ApplyDefaults (JObj (deepMerge declared overrides)) structural)"
  using assms
  by (auto simp: BuildAddonContext_def addonInstanceOverrides_def deepMerge_Nil Let_def
        extractParametersFromRawExtension_def
      split: option.splits sum.splits RawExtension.splits if_splits)

text \<open>
  C1. In a component context the \<open>parameters\<close> entry is the deep merge of the
  environment overrides over the component's declared parameters, with the schema
  defaults applied to the result. So, at every key path: what the overrides hold there
  (a scalar, a sequence, or a mapping, which is merged key by key with a declared
  mapping) is the parameter, whatever the declared parameters and the schema defaults
  say; what the declared parameters hold at a path the overrides leave untouched is the
  parameter, whatever the schema defaults say; a schema default fills a key that the
  merged sources lack, at the top level and inside nested mappings; and the top-level
  keys of the parameters are exactly those the three sources determine. The same holds
  in an addon context for the instance's overrides (by addon name and instance id), the
  instance configuration and the addon's schema. Mappings have distinct keys.
\<close>

theorem parameters_precedence:
  "(BuildComponentContext toStructural (Some inp) = Inr ctx
      \<and> Component inp = Some component
      \<and> ComponentTypeDefinition inp = Some ctd
      \<and> buildStructuralSchema toStructural
            \<lparr>ParametersSchema = SchemaParameters ctd, EnvOverridesSchema = SchemaEnvOverrides ctd,
             Structural = None\<rparr> = Inr structural
      \<and> extractParameters (Parameters component) = Inr declared
      \<and> extractParameters (componentOverrides inp) = Inr overrides
      \<and> distinctKeys (JObj overrides)
      \<and> distinct (map fst (sproperties structural))
    \<longrightarrow> ctx ''parameters'' = Some (ApplyDefaults (JObj (deepMerge declared overrides)) structural)
        \<and> precedence overrides declared structural
              (ApplyDefaults (JObj (deepMerge declared overrides)) structural))
   \<and> (BuildAddonContext toStructural' (Some ainp) = Inr actx
      \<and> AddonDef ainp = Some addon
      \<and> buildStructuralSchema toStructural'
            \<lparr>ParametersSchema = AddonSchemaParameters addon,
             EnvOverridesSchema = AddonSchemaEnvOverrides addon,
             Structural = None\<rparr> = Inr astructural
      \<and> extractParameters (Config (Instance ainp)) = Inr config
      \<and> extractParametersFromRawExtension (addonInstanceOverrides ainp addon) = Inr aoverrides
      \<and> distinctKeys (JObj aoverrides)
      \<and> distinct (map fst (sproperties astructural))
    \<longrightarrow> actx ''parameters'' = Some (ApplyDefaults (JObj (deepMerge config aoverrides)) astructural)
        \<and> precedence aoverrides config astructural
              (ApplyDefaults (JObj (deepMerge config aoverrides)) astructural))"
  by (intro conjI impI; (elim conjE)?)
     (erule (5) BuildComponentContext_parameters, erule (1) precedence_of_pipeline,
      erule (4) BuildAddonContext_parameters, erule (1) precedence_of_pipeline)

theorem parameters_precedence_witness:
  "(\<exists>ctx params. BuildComponentContext apiSchema (Some apiInput) = Inr ctx
       \<and> ctx ''parameters'' = Some params
       \<and> lookupPath params [''replicas''] = Some (JInt 5)
       \<and> lookupPath params [''resources'', ''cpu''] = Some (JStr ''2'')
       \<and> lookupPath params [''tags''] = Some (JArr [JStr ''c''])
       \<and> lookupPath params [''mounts'']
             = Some (JArr [JObj [(''path'', JStr ''/data''), (''readOnly'', JBool False)]])
       \<and> lookupPath params [''port''] = Some (JInt 8080)
       \<and> lookupPath params [''resources'', ''limit''] = Some (JStr ''1'')
       \<and> lookupPath params [''image''] = Some (JStr ''api:v1'')
       \<and> lookupPath params [''cpu''] = Some (JStr ''100m'')
       \<and> lookupPath params [''resources'', ''memory''] = Some (JStr ''64Mi'')
       \<and> lookupPath params [''zone''] = None)
   \<and> (\<exists>ctx params. BuildAddonContext apiSchema (Some cacheInput) = Inr ctx
       \<and> ctx ''parameters'' = Some params
       \<and> lookupPath params [''replicas''] = Some (JInt 5)
       \<and> lookupPath params [''tags''] = Some (JArr [JStr ''c''])
       \<and> lookupPath params [''port''] = Some (JInt 8080)
       \<and> lookupPath params [''cpu''] = Some (JStr ''100m'')
       \<and> lookupPath params [''zone''] = None)"
proof -
  have "\<exists>ctx. BuildComponentContext apiSchema (Some apiInput) = Inr ctx"
    by (simp add: BuildComponentContext_def apiInput_def apiSchema_def buildStructuralSchema_def
          extractParameters_def)
  then obtain ctx where ctx: "BuildComponentContext apiSchema (Some apiInput) = Inr ctx" ..
  have "\<exists>ctx. BuildAddonContext apiSchema (Some cacheInput) = Inr ctx"
    by (simp add: BuildAddonContext_def cacheInput_def cacheAddon_def apiSchema_def
          buildStructuralSchema_def extractParameters_def extractParametersFromRawExtension_def)
  then obtain actx where actx: "BuildAddonContext apiSchema (Some cacheInput) = Inr actx" ..
  let ?params = "ApplyDefaults (JObj (deepMerge apiDeclared apiOverrides)) apiStructural"
  have h1: "Component apiInput = Some \<lparr>Name = ''api'', Namespace = ''shop'',
               Parameters = Some (RawJSON (Inr apiDeclared))\<rparr>"
    and h2: "ComponentTypeDefinition apiInput = Some \<lparr>SchemaParameters = None, SchemaEnvOverrides = None\<rparr>"
    and h3: "extractParameters (componentOverrides apiInput) = Inr apiOverrides"
    and h4: "distinctKeys (JObj apiOverrides)"
    and h5: "buildStructuralSchema apiSchema
               \<lparr>ParametersSchema = None, EnvOverridesSchema = None, Structural = None\<rparr> = Inr apiStructural"
    and h6: "extractParameters (Some (RawJSON (Inr apiDeclared))) = Inr apiDeclared"
    and h7: "distinct (map fst (sproperties apiStructural))"
    by (simp_all add: apiInput_def componentOverrides_def extractParameters_def apiOverrides_def
          buildStructuralSchema_def apiSchema_def apiStructural_def)
  have a1: "AddonDef cacheInput = Some cacheAddon"
    and a2: "extractParameters (Config (Instance cacheInput)) = Inr apiDeclared"
    and a3: "extractParametersFromRawExtension (addonInstanceOverrides cacheInput cacheAddon) = Inr apiOverrides"
    and a4: "AddonSchemaParameters cacheAddon = None" "AddonSchemaEnvOverrides cacheAddon = None"
    by (simp_all add: cacheInput_def cacheAddon_def addonInstanceOverrides_def extractParameters_def
          extractParametersFromRawExtension_def)
  from parameters_precedence
         [of apiSchema apiInput ctx "\<lparr>Name = ''api'', Namespace = ''shop'',
               Parameters = Some (RawJSON (Inr apiDeclared))\<rparr>"
             "\<lparr>SchemaParameters = None, SchemaEnvOverrides = None\<rparr>"
             apiStructural apiDeclared apiOverrides
             apiSchema cacheInput actx cacheAddon apiStructural apiDeclared apiOverrides]
       ctx actx h1 h2 h3 h4 h5 h6 h7 a1 a2 a3 a4
  have c: "ctx ''parameters'' = Some ?params" and cp: "precedence apiOverrides apiDeclared apiStructural ?params"
    and a: "actx ''parameters'' = Some ?params"
    by simp_all
  from cp have overridden:
      "\<And>p v. p \<noteq> [] \<and> lookupPath (JObj apiOverrides) p = Some v
         \<longrightarrow> lookupPath ?params p
               = Some (defaulted (schemaAt apiStructural p) (laidOver (lookupPath (JObj apiDeclared) p) v))"
    and declared:
      "\<And>p v. lookupPath (JObj apiDeclared) p = Some v \<and> untouched apiOverrides p
         \<longrightarrow> lookupPath ?params p = Some (defaulted (schemaAt apiStructural p) v)"
    and filled:
      "\<And>q m k sq ps d.
         lookupPath (JObj (deepMerge apiDeclared apiOverrides)) q = Some (JObj m) \<and> map_of m k = None
           \<and> schemaAt apiStructural q = Some sq \<and> map_of (sproperties sq) k = Some ps
           \<and> sdefault ps = Some d
         \<longrightarrow> lookupPath ?params (q @ [k]) = Some (ApplyDefaults d ps)"
    and exact: "\<And>k. lookupPath ?params [k] = parameterAt apiOverrides apiDeclared apiStructural k"
    unfolding precedence_def by blast+
  have o1: "lookupPath (JObj apiOverrides) [''replicas''] = Some (JInt 5)"
    and o2: "lookupPath (JObj apiOverrides) [''resources'', ''cpu''] = Some (JStr ''2'')"
    and o3: "lookupPath (JObj apiOverrides) [''tags''] = Some (JArr [JStr ''c''])"
    and o4: "lookupPath (JObj apiOverrides) [''mounts''] = Some (JArr [JObj [(''path'', JStr ''/data'')]])"
    and u5: "untouched apiOverrides [''port'']"
    and u6: "untouched apiOverrides [''resources'', ''limit'']"
    and u7: "untouched apiOverrides [''image'']"
    and o8: "map_of apiOverrides ''cpu'' = None"
    and o9: "map_of apiOverrides ''resources'' = Some (JObj [(''cpu'', JStr ''2'')])"
    and o10: "map_of apiOverrides ''zone'' = None"
    and od: "distinct (map fst apiOverrides)"
    by (simp_all add: apiOverrides_def)
  have d5: "lookupPath (JObj apiDeclared) [''port''] = Some (JInt 8080)"
    and d6: "lookupPath (JObj apiDeclared) [''resources'', ''limit''] = Some (JStr ''1'')"
    and d7: "lookupPath (JObj apiDeclared) [''image''] = Some (JStr ''api:v1'')"
    and d8: "map_of apiDeclared ''cpu'' = None"
    and d9: "map_of apiDeclared ''resources'' = Some (JObj [(''limit'', JStr ''1'')])"
    and d10: "map_of apiDeclared ''zone'' = None"
    by (simp_all add: apiDeclared_def)
  have s1: "schemaAt apiStructural [''replicas''] = Some (Schema (Some (JInt 1)) [] None)"
    and s2: "schemaAt apiStructural [''resources'', ''cpu''] = None"
    and s3: "schemaAt apiStructural [''tags''] = None"
    and s4: "schemaAt apiStructural [''mounts'']
               = Some (Schema None []
                   (Some (Schema None [(''readOnly'', Schema (Some (JBool False)) [] None)] None)))"
    and s5: "schemaAt apiStructural [''port''] = Some (Schema (Some (JInt 80)) [] None)"
    and s6: "schemaAt apiStructural [''resources'', ''limit''] = None"
    and s7: "schemaAt apiStructural [''image''] = None"
    and s8: "map_of (sproperties apiStructural) ''cpu'' = Some (Schema (Some (JStr ''100m'')) [] None)"
    and s9: "schemaAt apiStructural [''resources'']
               = Some (Schema None [(''memory'', Schema (Some (JStr ''64Mi'')) [] None)] None)"
    and s10: "map_of (sproperties apiStructural) ''zone'' = None"
    by (simp_all add: apiStructural_def)
  from overridden [of "[''replicas'']" "JInt 5"] o1 s1
  have r1: "lookupPath ?params [''replicas''] = Some (JInt 5)"
    by simp
  from overridden [of "[''resources'', ''cpu'']" "JStr ''2''"] o2 s2
  have r2: "lookupPath ?params [''resources'', ''cpu''] = Some (JStr ''2'')"
    by simp
  from overridden [of "[''tags'']" "JArr [JStr ''c'']"] o3 s3
  have r3: "lookupPath ?params [''tags''] = Some (JArr [JStr ''c''])"
    by simp
  from overridden [of "[''mounts'']" "JArr [JObj [(''path'', JStr ''/data'')]]"] o4 s4
  have r4: "lookupPath ?params [''mounts'']
              = Some (JArr [JObj [(''path'', JStr ''/data''), (''readOnly'', JBool False)]])"
    by simp
  from declared [of "[''port'']" "JInt 8080"] d5 u5 s5
  have r5: "lookupPath ?params [''port''] = Some (JInt 8080)"
    by simp
  from declared [of "[''resources'', ''limit'']" "JStr ''1''"] d6 u6 s6
  have r6: "lookupPath ?params [''resources'', ''limit''] = Some (JStr ''1'')"
    by simp
  from declared [of "[''image'']" "JStr ''api:v1''"] d7 u7 s7
  have r7: "lookupPath ?params [''image''] = Some (JStr ''api:v1'')"
    by simp
  from od o8 d8 have m8: "map_of (deepMerge apiDeclared apiOverrides) ''cpu'' = None"
    by (simp add: map_of_deepMerge)
  from filled [of "[]" "deepMerge apiDeclared apiOverrides" "''cpu''" apiStructural
                  "Schema (Some (JStr ''100m'')) [] None" "JStr ''100m''"] m8 s8
  have r8: "lookupPath ?params [''cpu''] = Some (JStr ''100m'')"
    by simp
  from od o9 d9
  have m9: "lookupPath (JObj (deepMerge apiDeclared apiOverrides)) [''resources'']
              = Some (JObj (deepMerge [(''limit'', JStr ''1'')] [(''cpu'', JStr ''2'')]))"
    by (simp add: map_of_deepMerge)
  have n9: "map_of (deepMerge [(''limit'', JStr ''1'')] [(''cpu'', JStr ''2'')]) ''memory'' = None"
    by (simp add: map_of_deepMerge)
  from filled [of "[''resources'']" "deepMerge [(''limit'', JStr ''1'')] [(''cpu'', JStr ''2'')]"
                  "''memory''"
                  "Schema None [(''memory'', Schema (Some (JStr ''64Mi'')) [] None)] None"
                  "Schema (Some (JStr ''64Mi'')) [] None" "JStr ''64Mi''"] m9 n9 s9
  have r9: "lookupPath ?params [''resources'', ''memory''] = Some (JStr ''64Mi'')"
    by simp
  from exact [of "''zone''"] o10 d10 s10
  have r10: "lookupPath ?params [''zone''] = None"
    by (simp add: parameterAt_def)
  from ctx actx c a r1 r2 r3 r4 r5 r6 r7 r8 r9 r10 show ?thesis by simp
qed


section \<open>Properties of array filters\<close>

lemma filterNavigate_lookupPath: "filterNavigate item path = lookupPath item path"
  by (induction path arbitrary: item) (auto split: jv.splits option.splits)

lemma takeWhile_all: "list_all P xs \<Longrightarrow> \<not> P y \<Longrightarrow> takeWhile P (xs @ y # ys) = xs"
  by (induction xs) auto

lemma dropWhile_all: "list_all P xs \<Longrightarrow> \<not> P y \<Longrightarrow> dropWhile P (xs @ y # ys) = y # ys"
  by (induction xs) auto

lemma filterExpr_standard:
  assumes "field \<noteq> []" and "list_all isFieldChar field" and "CHR 0x0A \<notin> set expected"
    and "isQuote q" and "isQuote q'"
  shows "filterExpr (''@.'' @ field @ ''=='' @ q # expected @ [q']) = Some (field, expected)"
proof -
  have eq: "\<not> isFieldChar (CHR ''='')" "\<not> isRegexSpace (CHR ''='')"
    by (simp_all add: isFieldChar_def isRegexSpace_def)
  from assms(4) have q: "\<not> isRegexSpace q" by (auto simp: isQuote_def isRegexSpace_def)
  have tw: "takeWhile isFieldChar (field @ CHR ''='' # CHR ''='' # q # expected @ [q']) = field"
    using assms(2) eq(1) by (rule takeWhile_all)
  have dw: "dropWhile isFieldChar (field @ CHR ''='' # CHR ''='' # q # expected @ [q'])
              = CHR ''='' # CHR ''='' # q # expected @ [q']"
    using assms(2) eq(1) by (rule dropWhile_all)
  show ?thesis
    using assms(1,3,4,5) eq q
    by (simp add: filterExpr_def tw dw Let_def butlast_append)
qed

lemma TrimSpace_standard:
  assumes "isQuote q'"
  shows "TrimSpace (''@.'' @ field @ ''=='' @ q # expected @ [q'])
           = ''@.'' @ field @ ''=='' @ q # expected @ [q']"
proof -
  from assms have "\<not> isSpace q'" by (auto simp: isQuote_def isSpace_def)
  moreover have "\<not> isSpace (CHR ''@'')" by (simp add: isSpace_def)
  ultimately show ?thesis by (simp add: TrimSpace_def)
qed

lemma matchesFilter_parsed:
  "filterExpr (TrimSpace expr) = Some (field, expected) \<Longrightarrow>
   matchesFilter sprint item expr =
     Inr (case lookupPath item (splitOn (CHR ''.'') field) of
            None \<Rightarrow> False
          | Some v \<Rightarrow> if v = JNull then expected = [] else sprint v = expected)"
  by (simp add: matchesFilter_def filterNavigate_lookupPath split: option.splits)

text \<open>
  C10. For a filter \<open>@.field.path=='value'\<close>, \<open>matchesFilter\<close> never returns an error.
  When the field path is absent in the element or leads through a value that is not a
  mapping, the element does not match; when the value found is nil, the element matches
  exactly when the literal is empty; otherwise it matches exactly when the stringified
  value equals the literal.
\<close>

theorem matchesFilter_field_path:
  assumes "field \<noteq> []" and "list_all isFieldChar field" and "CHR 0x0A \<notin> set expected"
  shows "matchesFilter sprint item (filterText field expected) =
           Inr (case lookupPath item (splitOn (CHR ''.'') field) of
                  None \<Rightarrow> False
                | Some v \<Rightarrow> if v = JNull then expected = [] else sprint v = expected)"
proof -
  have q: "isQuote (CHR 0x27)" by (simp add: isQuote_def)
  have "filterExpr (''@.'' @ field @ ''=='' @ CHR 0x27 # expected @ [CHR 0x27]) = Some (field, expected)"
    using assms q q by (rule filterExpr_standard)
  then have "filterExpr (TrimSpace (''@.'' @ field @ ''=='' @ CHR 0x27 # expected @ [CHR 0x27]))
          = Some (field, expected)"
    by (simp only: TrimSpace_standard [OF q])
  then show ?thesis using matchesFilter_parsed by (simp add: filterText_def)
qed

theorem matchesFilter_field_path_witness:
  "matchesFilter sprintScalar appContainer (filterText ''name'' ''app'') = Inr True
   \<and> matchesFilter sprintScalar appContainer (filterText ''port'' ''8080'') = Inr True
   \<and> matchesFilter sprintScalar appContainer (filterText ''resources.cpu'' ''2'') = Inr False
   \<and> matchesFilter sprintScalar appContainer (filterText ''name.first'' ''app'') = Inr False
   \<and> matchesFilter sprintScalar appContainer (filterText ''missing'' ''app'') = Inr False
   \<and> matchesFilter sprintScalar appContainer (filterText ''role'' ''app'') = Inr False
   \<and> matchesFilter sprintScalar appContainer (filterText ''role'' []) = Inr True"
  using matchesFilter_field_path [of "''name''" "''app''" sprintScalar appContainer]
    matchesFilter_field_path [of "''port''" "''8080''" sprintScalar appContainer]
    matchesFilter_field_path [of "''resources.cpu''" "''2''" sprintScalar appContainer]
    matchesFilter_field_path [of "''name.first''" "''app''" sprintScalar appContainer]
    matchesFilter_field_path [of "''missing''" "''app''" sprintScalar appContainer]
    matchesFilter_field_path [of "''role''" "''app''" sprintScalar appContainer]
    matchesFilter_field_path [of "''role''" "[]" sprintScalar appContainer]
  by (simp add: isFieldChar_def appContainer_def sprintScalar_def Itoa_def decdigits.simps)


section \<open>Paths that resolve to no location\<close>

lemma applyRFC6902_no_pointer:
  "expandPaths sprint target rawPath = Inr [] \<Longrightarrow>
   applyRFC6902 sprint jsonpatch target op rawPath val = Inr target"
  by (simp add: applyRFC6902_def)

lemma applyMergeShallow_no_pointer:
  "expandPaths sprint target rawPath = Inr [] \<Longrightarrow>
   applyMergeShallow sprint target rawPath (JObj valueMap) = Inr target"
  by (simp add: applyMergeShallow_def)

lemma expandPaths_no_match:
  "expandPaths sprintScalar deployment ''/spec/containers/[?(@.name=='sidecar')]/image'' = Inr []"
  by (simp add: expandPaths_def splitRawPath_def TrimPrefix_def expandSegments.simps
        applySegment_def applySegmentLoop.simps [of _ _ "_ # _"] applySegmentLoop.simps [of _ _ "[]"]
        Atoi_def isDigit_def applyKey_def deployment_def appContainer_def
        matchesFilter_def filterExpr_def TrimSpace_def isSpace_def isFieldChar_def isRegexSpace_def
        isQuote_def sprintScalar_def appendPointer_def Let_def)

theorem no_pointer_counterexample:
  "expandPaths sprintScalar deployment ''/spec/containers/[?(@.name=='sidecar')]/image'' = Inr []
   \<and> applyMergeShallow sprintScalar deployment ''/spec/containers/[?(@.name=='sidecar')]/image''
         (JStr ''nginx'')
       = Inl (Error ''mergeShallow value must be an object'')"
  using expandPaths_no_match by (simp add: applyMergeShallow_def)

text \<open>
  C4 (amended). If the expansion of a path against the target yields no pointer, then
  \<open>add\<close>, \<open>replace\<close>, \<open>remove\<close>, \<open>test\<close>, \<open>move\<close> and \<open>copy\<close> succeed and leave the
  target unchanged, and so does \<open>mergeShallow\<close> when its value is a mapping. The same
  holds for \<open>ApplyOperation\<close> once the path has rendered to a string and the value has
  rendered.
\<close>

theorem no_pointer_is_noop:
  assumes "expandPaths sprint target rawPath = Inr []"
  shows "applyRFC6902 sprint jsonpatch target op rawPath val = Inr target
         \<and> applyMergeShallow sprint target rawPath (JObj valueMap) = Inr target
         \<and> (render (JStr (Path operation)) inputs = Inr (JStr rawPath)
              \<and> (if Op operation \<noteq> opRemove then render (Value operation) inputs else Inr JNull) = Inr v
              \<and> (ToLower (Op operation) \<in> {''add'', ''replace'', ''remove'', ''test'', ''move'', ''copy''}
                   \<or> ToLower (Op operation) = ''mergeshallow'' \<and> (\<exists>m. v = JObj m))
            \<longrightarrow> ApplyOperation sprint jsonpatch target operation inputs render = Inr target)"
proof (intro conjI impI)
  show "applyRFC6902 sprint jsonpatch target op rawPath val = Inr target"
    using assms by (rule applyRFC6902_no_pointer)
  show "applyMergeShallow sprint target rawPath (JObj valueMap) = Inr target"
    using assms by (rule applyMergeShallow_no_pointer)
next
  assume a: "render (JStr (Path operation)) inputs = Inr (JStr rawPath)
              \<and> (if Op operation \<noteq> opRemove then render (Value operation) inputs else Inr JNull) = Inr v
              \<and> (ToLower (Op operation) \<in> {''add'', ''replace'', ''remove'', ''test'', ''move'', ''copy''}
                   \<or> ToLower (Op operation) = ''mergeshallow'' \<and> (\<exists>m. v = JObj m))"
  then have r: "render (JStr (Path operation)) inputs = Inr (JStr rawPath)"
    and v: "(if Op operation \<noteq> opRemove then render (Value operation) inputs else Inr JNull) = Inr v"
    by simp_all
  from a consider
      (rfc) "ToLower (Op operation) \<in> {''add'', ''replace'', ''remove'', ''test'', ''move'', ''copy''}"
    | (merge) m where "ToLower (Op operation) = ''mergeshallow''" "v = JObj m"
    by auto
  then show "ApplyOperation sprint jsonpatch target operation inputs render = Inr target"
  proof cases
    case rfc
    then show ?thesis
      using r v applyRFC6902_no_pointer [OF assms]
      by (auto simp: ApplyOperation_def Let_def opRemove_def)
  next
    case merge
    then show ?thesis
      using r v applyMergeShallow_no_pointer [OF assms]
      by (auto simp: ApplyOperation_def Let_def opRemove_def)
  qed
qed

theorem no_pointer_is_noop_witness:
  "applyRFC6902 sprintScalar keepDocument deployment ''add''
      ''/spec/containers/[?(@.name=='sidecar')]/image'' (JStr ''nginx'') = Inr deployment
   \<and> applyMergeShallow sprintScalar deployment ''/spec/containers/[?(@.name=='sidecar')]/image''
        (JObj [(''image'', JStr ''nginx'')]) = Inr deployment
   \<and> ApplyOperation sprintScalar keepDocument deployment
        \<lparr>Op = ''Remove'', Path = ''/spec/containers/[?(@.name=='sidecar')]/image'', Value = JNull\<rparr>
        Map.empty (\<lambda>v inputs. Inr v) = Inr deployment"
  using no_pointer_is_noop [OF expandPaths_no_match, of keepDocument "''add''" "JStr ''nginx''"
          "[(''image'', JStr ''nginx'')]" "\<lambda>v inputs. Inr v"
          "\<lparr>Op = ''Remove'', Path = ''/spec/containers/[?(@.name=='sidecar')]/image'', Value = JNull\<rparr>"
          Map.empty JNull]
  by (simp add: opRemove_def ToLower_def toLowerChar_def)


section \<open>Auto-creation of missing parents\<close>

















section \<open>Context bindings\<close>

lemma restoreBinding_agree:
  "(\<And>k. k \<noteq> key \<Longrightarrow> m' k = m k) \<Longrightarrow> restoreBinding key (m key) m' = m"
  by (rule ext) (auto simp: restoreBinding_def split: option.splits)

lemma matchTarget_inputs:
  "snd (matchTarget render isMissingData wher target inputs) = inputs"
proof -
  have "restoreBinding ''resource'' (inputs ''resource'') (inputs(''resource'' \<mapsto> JObj target)) = inputs"
    by (rule restoreBinding_agree) simp
  then show ?thesis
    by (simp add: matchTarget_def Let_def split: sum.splits jv.splits)
qed

lemma operationsLoop_inputs:
  "(\<And>k. k \<noteq> ''resource'' \<Longrightarrow> bound k = inputs k) \<Longrightarrow>
   snd (operationsLoop sprint jsonpatch render (inputs ''resource'') ops target bound) = inputs"
proof (induction ops arbitrary: target bound)
  case Nil
  then show ?case by (simp add: restoreBinding_agree)
next
  case (Cons op ops)
  have "snd (operationsLoop sprint jsonpatch render (inputs ''resource'') ops target'
               (bound(''resource'' \<mapsto> JObj target'))) = inputs" for target'
    by (rule Cons.IH) (simp add: Cons.prems)
  then show ?case
    using Cons.prems by (simp add: restoreBinding_agree split: sum.splits)
qed

lemma executeOperations_inputs:
  "snd (executeOperations sprint jsonpatch render ops target inputs) = inputs"
  unfolding executeOperations_def Let_def
  by (rule operationsLoop_inputs) simp

lemma targetsLoop_inputs:
  "snd (targetsLoop sprint jsonpatch render isMissingData spec targets resources inputs) = inputs"
proof (induction targets arbitrary: resources)
  case Nil
  show ?case by simp
next
  case (Cons t targets)
  obtain m i1 where m: "matchTarget render isMissingData (Where (Target spec)) (resources ! t) inputs = (m, i1)"
    by (cases "matchTarget render isMissingData (Where (Target spec)) (resources ! t) inputs")
  with matchTarget_inputs [of render isMissingData "Where (Target spec)" "resources ! t" inputs]
  have i1: "i1 = inputs" by simp
  obtain r i2 where e: "executeOperations sprint jsonpatch render (Operations spec) (resources ! t) inputs = (r, i2)"
    by (cases "executeOperations sprint jsonpatch render (Operations spec) (resources ! t) inputs")
  with executeOperations_inputs [of sprint jsonpatch render "Operations spec" "resources ! t" inputs]
  have i2: "i2 = inputs" by simp
  show ?case
    using m e by (simp add: i1 i2 Cons.IH split: sum.splits)
qed

lemma itemsLoop_inputs:
  "(\<And>k. k \<noteq> varName \<Longrightarrow> current k = inputs k) \<Longrightarrow>
   snd (itemsLoop sprint jsonpatch render isMissingData spec targets varName (inputs varName)
          items resources current) = inputs"
proof (induction items arbitrary: resources current)
  case Nil
  then show ?case by (simp add: restoreBinding_agree)
next
  case (Cons item items)
  obtain r i1 where t: "targetsLoop sprint jsonpatch render isMissingData spec targets resources
      (current(varName \<mapsto> item)) = (r, i1)"
    by (cases "targetsLoop sprint jsonpatch render isMissingData spec targets resources
                 (current(varName \<mapsto> item))")
  with targetsLoop_inputs [of sprint jsonpatch render isMissingData spec targets resources
      "current(varName \<mapsto> item)"]
  have i1: "i1 = current(varName \<mapsto> item)" by simp
  have agree: "(current(varName \<mapsto> item)) k = inputs k" if "k \<noteq> varName" for k
    using that Cons.prems by simp
  show ?case
  proof (cases r)
    case (Inl err)
    with t i1 agree show ?thesis by (simp add: restoreBinding_agree)
  next
    case (Inr resources')
    have "snd (itemsLoop sprint jsonpatch render isMissingData spec targets varName (inputs varName)
                 items resources' (current(varName \<mapsto> item))) = inputs"
      by (rule Cons.IH) (rule agree)
    with t i1 Inr show ?thesis by simp
  qed
qed

text \<open>
  C3. Whatever \<open>ApplySpec\<close> returns (the patched resources or any error), the context
  map it leaves behind is the context map it was given: the bindings of \<open>resource\<close> and
  of the iteration variable are as before the call, whether they existed or not.
\<close>

theorem ApplySpec_restores_context:
  "snd (ApplySpec sprint jsonpatch resources spec inputs matcher render isMissingData) = inputs"
proof -
  have loop: "snd (itemsLoop sprint jsonpatch render isMissingData spec targets v (inputs v)
                     items resources inputs) = inputs" for targets items v
    by (rule itemsLoop_inputs) simp
  show ?thesis
    by (simp add: ApplySpec_def Let_def targetsLoop_inputs loop split: sum.splits jv.splits)
qed

theorem ApplySpec_restores_context_witness:
  "ApplySpec sprintScalar keepDocument [deployment] exampleSpec exampleContext () exampleRender None
     = (Inl (Wrap ''failed to evaluate target.where'' (Error ''no such key'')), exampleContext)"
proof -
  have t: "FindTargetResources [deployment] (Target exampleSpec) () = [0]"
    by (simp add: FindTargetResources_def targetMatches_def exampleSpec_def deployment_def)
  have r: "exampleRender (JStr ''items'') exampleContext = Inr (JArr [JInt 1, JInt 2])"
    by (simp add: exampleRender_def exampleContext_def)
  have w: "exampleRender (JStr ''unknown.field'') c = Inl (Error ''no such key'')" for c
    by (simp add: exampleRender_def)
  have "fst (ApplySpec sprintScalar keepDocument [deployment] exampleSpec exampleContext ()
               exampleRender None)
          = Inl (Wrap ''failed to evaluate target.where'' (Error ''no such key''))"
    by (simp add: ApplySpec_def t Let_def)
       (simp add: exampleSpec_def r w matchTarget_def Let_def)
  with ApplySpec_restores_context
         [of sprintScalar keepDocument "[deployment]" exampleSpec exampleContext "()" exampleRender None]
  show ?thesis by (simp add: prod_eq_iff)
qed

section \<open>The where expression of a target\<close>

text \<open>
  The loop over the targets is what \<open>ApplySpec\<close> runs: once when there is no
  \<open>forEach\<close>, and once per item otherwise, where an error of the loop ends the
  iteration with that error.
\<close>

lemma ApplySpec_without_forEach:
  "Operations spec \<noteq> [] \<Longrightarrow> ForEach spec = [] \<Longrightarrow>
   ApplySpec sprint jsonpatch resources spec inputs matcher render isMissingData =
     targetsLoop sprint jsonpatch render isMissingData spec
       (FindTargetResources resources (Target spec) matcher) resources inputs"
  by (simp add: ApplySpec_def)

lemma itemsLoop_error:
  "fst (targetsLoop sprint jsonpatch render isMissingData spec targets resources
          (inputs(varName \<mapsto> item))) = Inl err \<Longrightarrow>
   fst (itemsLoop sprint jsonpatch render isMissingData spec targets varName previous (item # items)
          resources inputs) = Inl err"
  by (cases "targetsLoop sprint jsonpatch render isMissingData spec targets resources
          (inputs(varName \<mapsto> item))") auto

text \<open>
  C6. For a target with a \<open>where\<close> expression, the expression is rendered with the
  candidate resource bound as \<open>resource\<close>. If rendering fails with an error that the
  supplied missing-data checker accepts, the loop over the targets goes on with the
  next candidate as if this one did not match. If it fails with any other error (or no
  checker is supplied), or yields a value that is not a boolean, the loop ends with an
  error. A boolean result decides whether the operations run on the candidate.
\<close>

theorem where_evaluation:
  assumes "Where (Target spec) \<noteq> []"
  shows
    "(case render (JStr (Where (Target spec))) (inputs(''resource'' \<mapsto> JObj (resources ! t))) of
        Inl err \<Rightarrow>
          (if (case isMissingData of None \<Rightarrow> False | Some chk \<Rightarrow> chk err)
           then targetsLoop sprint jsonpatch render isMissingData spec (t # targets) resources inputs
                  = targetsLoop sprint jsonpatch render isMissingData spec targets resources inputs
           else targetsLoop sprint jsonpatch render isMissingData spec (t # targets) resources inputs
                  = (Inl (Wrap ''failed to evaluate target.where'' err), inputs))
      | Inr result \<Rightarrow>
          (case result of
             JBool match \<Rightarrow>
               (if match
                then targetsLoop sprint jsonpatch render isMissingData spec (t # targets) resources inputs
                       = (case executeOperations sprint jsonpatch render (Operations spec)
                                 (resources ! t) inputs of
                            (Inl err, inputs') \<Rightarrow> (Inl err, inputs')
                          | (Inr target', inputs') \<Rightarrow>
                              targetsLoop sprint jsonpatch render isMissingData spec targets
                                (resources[t := target']) inputs')
                else targetsLoop sprint jsonpatch render isMissingData spec (t # targets) resources inputs
                       = targetsLoop sprint jsonpatch render isMissingData spec targets resources inputs)
           | _ \<Rightarrow>
               targetsLoop sprint jsonpatch render isMissingData spec (t # targets) resources inputs
                 = (Inl (Error ''target.where must evaluate to a boolean''), inputs)))"
proof -
  have "restoreBinding ''resource'' (inputs ''resource'') (inputs(''resource'' \<mapsto> JObj (resources ! t)))
          = inputs"
    by (rule restoreBinding_agree) simp
  with assms show ?thesis
    by (simp add: matchTarget_def Let_def split: sum.splits jv.splits option.splits)
qed

theorem where_evaluation_witness:
  "targetsLoop sprintScalar keepDocument exampleRender (Some (\<lambda>err. err = Error ''no such key''))
      exampleSpec [0] [deployment] exampleContext
     = (Inr [deployment], exampleContext)
   \<and> targetsLoop sprintScalar keepDocument exampleRender (Some (\<lambda>err. err = Error ''type error''))
      exampleSpec [0] [deployment] exampleContext
     = (Inl (Wrap ''failed to evaluate target.where'' (Error ''no such key'')), exampleContext)"
  using where_evaluation [where spec = exampleSpec and render = exampleRender
          and inputs = exampleContext and resources = "[deployment]" and t = 0
          and isMissingData = "Some (\<lambda>err. err = Error ''no such key'')"
          and sprint = sprintScalar and jsonpatch = keepDocument and targets = "[]"]
    where_evaluation [where spec = exampleSpec and render = exampleRender
          and inputs = exampleContext and resources = "[deployment]" and t = 0
          and isMissingData = "Some (\<lambda>err. err = Error ''type error'')"
          and sprint = sprintScalar and jsonpatch = keepDocument and targets = "[]"]
  by (simp add: exampleSpec_def exampleRender_def)


section \<open>Properties of the shallow merge\<close>

lemma deepCopy_id: "deepCopyMap m = m" "deepCopySlice xs = xs"
  by (induction m and xs rule: deepCopyMap_deepCopySlice.induct) (auto split: jv.splits)

lemma cloneValue_id: "cloneValue v = v"
  by (simp add: cloneValue_def deepCopy_id split: jv.splits)

lemma mergeShallowInto_foldl:
  "mergeShallowInto target overlay = foldl (\<lambda>t (k, v). AList.update k v t) target overlay"
  by (simp add: mergeShallowInto_def cloneValue_id)

text \<open>
  The overlay's entries replace the target's entries of the same key, whatever their
  values are; all other entries of the target stay.
\<close>

lemma map_of_mergeShallowInto:
  "distinct (map fst overlay) \<Longrightarrow>
   map_of (mergeShallowInto target overlay) k =
     (case map_of overlay k of
        Some v \<Rightarrow> Some v
      | None \<Rightarrow> map_of target k)"
  unfolding mergeShallowInto_foldl
proof (induction overlay arbitrary: target)
  case Nil
  show ?case by simp
next
  case (Cons p overlay)
  obtain k' v' where p: "p = (k', v')" by (cases p)
  from Cons.prems p have d: "distinct (map fst overlay)" and nin: "k' \<notin> fst ` set overlay" by auto
  from nin have none: "map_of overlay k' = None" by (simp add: map_of_eq_None_iff)
  show ?case
    by (simp add: p Cons.IH [OF d] update_conv' none split: option.splits)
qed

lemma applyMergeShallow_not_object:
  "\<forall>m. val \<noteq> JObj m \<Longrightarrow>
   applyMergeShallow sprint target rawPath val = Inl (Error ''mergeShallow value must be an object'')"
  by (cases val) (simp_all add: applyMergeShallow_def)

text \<open>
  At a location below the root whose parent is a mapping: an absent, nil or
  non-mapping entry is set to a copy of the value, a mapping entry is overlaid.
\<close>

lemma mergeShallowWrite_mapping:
  "mergeShallowWrite val (JObj container) last_seg =
     Inr (JObj (AList.update last_seg
                  (case map_of container last_seg of
                     Some (JObj targetMap) \<Rightarrow> JObj (mergeShallowInto targetMap val)
                   | _ \<Rightarrow> JObj val)
                  container))"
  by (simp add: mergeShallowWrite_def deepCopy_id split: option.splits jv.splits)

lemma lookupPath_replaceAt:
  "lookupPath v segs = Some old \<Longrightarrow> lookupPath (replaceAt v segs new) segs = Some new"
proof (induction segs arbitrary: v)
  case Nil
  show ?case by simp
next
  case (Cons k ks)
  then obtain m c where "v = JObj m" "map_of m k = Some c" "lookupPath c ks = Some old"
    by (cases v) (auto split: option.splits)
  with Cons.IH [of c] show ?case by (simp add: update_conv')
qed

text \<open>
  When the parent segments of a pointer lead through existing mappings to a mapping,
  \<open>navigateToParent\<close> creates nothing and the caller's write lands on that mapping.
\<close>

lemma navigateLoop_existing:
  "lookupPath current segs = Some (JObj container) \<Longrightarrow>
   navigateLoop create parentSegs last_seg write i segs current =
     (case write (JObj container) of
        Inl err \<Rightarrow> Inl err
      | Inr parent' \<Rightarrow> Inr (replaceAt current segs parent'))"
proof (induction segs arbitrary: current i)
  case Nil
  then show ?case by (simp split: sum.splits)
next
  case (Cons k ks)
  then obtain m c where v: "current = JObj m" and c: "map_of m k = Some c"
    and rest: "lookupPath c ks = Some (JObj container)"
    by (cases current) (auto split: option.splits)
  from rest have "c \<noteq> JNull" by (cases ks) auto
  with Cons.IH [OF rest, of "Suc i"] v c show ?case
    by (simp split: sum.splits)
qed

text \<open>
  Below the root, at a location whose parent is reached through existing mappings:
  the location holds the overlaid mapping, or a copy of the value when it was absent,
  nil or not a mapping.
\<close>

lemma mergeShallowAtPointer_below_root:
  assumes "splitPointer pointer = parentSegs @ [last_seg]"
    and "lookupPath (JObj root) parentSegs = Some (JObj container)"
  shows "\<exists>root'. mergeShallowAtPointer root pointer val = Inr root'
           \<and> lookupPath (JObj root') (parentSegs @ [last_seg]) =
                 Some (case map_of container last_seg of
                         Some (JObj targetMap) \<Rightarrow> JObj (mergeShallowInto targetMap val)
                       | _ \<Rightarrow> JObj val)"
proof -
  let ?new = "case map_of container last_seg of
                Some (JObj targetMap) \<Rightarrow> JObj (mergeShallowInto targetMap val)
              | _ \<Rightarrow> JObj val"
  let ?parent' = "JObj (AList.update last_seg ?new container)"
  let ?root' = "replaceAt (JObj root) parentSegs ?parent'"
  have nav: "navigateToParent root pointer True (mergeShallowWrite val) = Inr ?root'"
    using assms navigateLoop_existing [OF assms(2), of True parentSegs last_seg
        "\<lambda>parent. mergeShallowWrite val parent last_seg" 0]
    by (simp add: navigateToParent_def mergeShallowWrite_mapping)
  have "\<exists>m. ?root' = JObj m" by (cases parentSegs) auto
  then obtain m where m: "?root' = JObj m" ..
  have "lookupPath ?root' parentSegs = Some ?parent'"
    using assms(2) by (rule lookupPath_replaceAt)
  then have "lookupPath ?root' (parentSegs @ [last_seg]) = Some ?new"
    by (simp add: lookupPath_append update_conv')
  with nav m show ?thesis
    by (simp add: mergeShallowAtPointer_def asMap_def)
qed

text \<open>
  With the empty path (the pointer of the whole document), \<open>navigateToParent\<close> returns
  the root itself with the empty string as final segment, and the merge is written to
  the root's entry for the key \<open>""\<close>.
\<close>

lemma applyMergeShallow_root:
  "applyMergeShallow sprint target [] (JObj val) =
     Inr (AList.update []
            (case map_of target [] of
               Some (JObj targetMap) \<Rightarrow> JObj (mergeShallowInto targetMap val)
             | _ \<Rightarrow> JObj val)
            target)"
  by (simp add: applyMergeShallow_def expandPaths_def mergeShallowAtPointer_def navigateToParent_def
        splitPointer_def mergeShallowWrite_mapping asMap_def)

text \<open>
  C2, at the root. The comment of \<open>applyMergeShallow\<close> gives the document
  \<open>{a: {x: 1, y: 2}, b: 3}\<close>, the overlay \<open>{a: {z: 3}}\<close> and the result
  \<open>{a: {z: 3}, b: 3}\<close>. Applied with the path of the whole document, the code leaves
  \<open>a\<close> as it was and stores the overlay under the key \<open>""\<close>; applied to the same
  document one level down, it gives the documented result.
\<close>

theorem mergeShallow_root_path:
  "applyMergeShallow sprintScalar nestedDocument [] (JObj nestedOverlay)
     = Inr [(''a'', JObj [(''x'', JInt 1), (''y'', JInt 2)]), (''b'', JInt 3),
            ([], JObj [(''a'', JObj [(''z'', JInt 3)])])]
   \<and> applyMergeShallow sprintScalar [(''doc'', JObj nestedDocument)] ''/doc'' (JObj nestedOverlay)
     = Inr [(''doc'', JObj [(''a'', JObj [(''z'', JInt 3)]), (''b'', JInt 3)])]"
proof -
  have e: "expandPaths sprintScalar [(''doc'', JObj nestedDocument)] ''/doc'' = Inr [''/doc'']"
    by (simp add: expandPaths_def splitRawPath_def TrimPrefix_def applySegment_def
          applySegmentLoop.simps [of _ _ "_ # _"] applySegmentLoop.simps [of _ _ "[]"]
          Atoi_def isDigit_def applyKey_def appendPointer_def buildJSONPointer_def
          escapePointerSegment_def)
  have s: "splitPointer ''/doc'' = [''doc'']"
    by (simp add: splitPointer_def TrimPrefix_def unescapePointerSegment_def)
  have "applyMergeShallow sprintScalar [(''doc'', JObj nestedDocument)] ''/doc'' (JObj nestedOverlay)
     = Inr [(''doc'', JObj [(''a'', JObj [(''z'', JInt 3)]), (''b'', JInt 3)])]"
    by (simp add: applyMergeShallow_def e mergeShallowAtPointer_def navigateToParent_def s)
       (simp add: mergeShallowWrite_mapping asMap_def mergeShallowInto_foldl nestedDocument_def
          nestedOverlay_def)
  then show ?thesis
    by (simp add: applyMergeShallow_root nestedDocument_def nestedOverlay_def)
qed

end
